theory Spec2Isabelle
  imports Main
begin

section \<open>Python values\<close>

text \<open>
  The vendor report (\<^verbatim>\<open>src/fetch_vendors.py\<close>) works on parsed JSON: a vendor record is a
  Python dict from field names to values that are not known statically. Such a value is a
  \<open>pyval\<close>. A dict is an association list in insertion order, as Python keeps it. A
  character is a code point below 256. Floating point numbers are not part of the model,
  with one exception: \<open>PNaN\<close>, the value pandas puts into a cell that a row does not have.
\<close>

datatype pyval =
    PNone
  | PBool bool
  | PInt int
  | PStr string
  | PNaN
  | PList "pyval list"
  | PDict "(string \<times> pyval) list"

type_synonym 'v pydict = "(string \<times> 'v) list"

datatype exc_class =
    ValueError | TypeError | KeyError | OverflowError
  | FileNotFoundError | JSONDecodeError | OSError

text \<open>A raised exception: its class and the text \<^verbatim>\<open>str(e)\<close>.\<close>

datatype py_error = Raised exc_class string

fun exc_text :: "py_error \<Rightarrow> string" where
  "exc_text (Raised c msg) = msg"

fun exc_class_of :: "py_error \<Rightarrow> exc_class" where
  "exc_class_of (Raised c msg) = c"

text \<open>\<^verbatim>\<open>d.get(k, default)\<close>, \<^verbatim>\<open>k in d\<close>, \<^verbatim>\<open>d[k] = v\<close> and \<^verbatim>\<open>d.pop(k, None)\<close>.\<close>

definition dict_get :: "'v pydict \<Rightarrow> string \<Rightarrow> 'v \<Rightarrow> 'v" where
  "dict_get d k dflt = (case map_of d k of None \<Rightarrow> dflt | Some v \<Rightarrow> v)"

definition dict_has :: "'v pydict \<Rightarrow> string \<Rightarrow> bool" where
  "dict_has d k = (k \<in> set (map fst d))"

definition dict_set :: "'v pydict \<Rightarrow> string \<Rightarrow> 'v \<Rightarrow> 'v pydict" where
  "dict_set d k v =
     (if dict_has d k then map (\<lambda>(k', v'). if k' = k then (k', v) else (k', v')) d
      else d @ [(k, v)])"

definition dict_pop :: "'v pydict \<Rightarrow> string \<Rightarrow> 'v pydict" where
  "dict_pop d k = filter (\<lambda>(k', v'). k' \<noteq> k) d"

text \<open>Truth value of a Python object (\<^verbatim>\<open>if x\<close>, \<^verbatim>\<open>not x\<close>).\<close>

fun truthy :: "pyval \<Rightarrow> bool" where
  "truthy PNone = False"
| "truthy (PBool b) = b"
| "truthy (PInt i) = (i \<noteq> 0)"
| "truthy (PStr s) = (s \<noteq> [])"
| "truthy PNaN = True"
| "truthy (PList xs) = (xs \<noteq> [])"
| "truthy (PDict d) = (d \<noteq> [])"

text \<open>\<^verbatim>\<open>x != 0\<close>: only the integer zero and \<^verbatim>\<open>False\<close> are equal to 0.\<close>

fun ne_zero :: "pyval \<Rightarrow> bool" where
  "ne_zero (PInt i) = (i \<noteq> 0)"
| "ne_zero (PBool b) = b"
| "ne_zero v = True"

fun is_dict :: "pyval \<Rightarrow> bool" where
  "is_dict (PDict d) = True"
| "is_dict v = False"

subsection \<open>\<^verbatim>\<open>str\<close> and \<^verbatim>\<open>repr\<close>\<close>

definition digit_char :: "nat \<Rightarrow> char" where
  "digit_char n = char_of (48 + n)"

fun str_of_nat :: "nat \<Rightarrow> string" where
  "str_of_nat n =
     (if n < 10 then [digit_char n] else str_of_nat (n div 10) @ [digit_char (n mod 10)])"

declare str_of_nat.simps [simp del]

definition str_of_int :: "int \<Rightarrow> string" where
  "str_of_int i = (if i < 0 then CHR ''-'' # str_of_nat (nat (- i)) else str_of_nat (nat i))"

definition hex_digit :: "nat \<Rightarrow> char" where
  "hex_digit n = (if n < 10 then char_of (48 + n) else char_of (87 + n))"

text \<open>
  \<^verbatim>\<open>repr\<close> of one character inside the quotes \<open>q\<close>: the quote and the backslash are
  escaped, tab, newline and carriage return have their letters, any other character that
  is not printable is written as \<^verbatim>\<open>\xNN\<close>.
\<close>

definition repr_char :: "char \<Rightarrow> char \<Rightarrow> string" where
  "repr_char q c =
     (let n = (of_char c :: nat) in
      if c = q \<or> n = 92 then [CHR 0x5C, c]
      else if n = 9 then [CHR 0x5C, CHR ''t'']
      else if n = 10 then [CHR 0x5C, CHR ''n'']
      else if n = 13 then [CHR 0x5C, CHR ''r'']
      else if n < 32 \<or> (127 \<le> n \<and> n \<le> 160) \<or> n = 173
        then [CHR 0x5C, CHR ''x'', hex_digit (n div 16), hex_digit (n mod 16)]
      else [c])"

definition repr_str :: "string \<Rightarrow> string" where
  "repr_str s =
     (let q = (if CHR 0x27 \<in> set s \<and> CHR 0x22 \<notin> set s then CHR 0x22 else CHR 0x27)
      in q # concat (map (repr_char q) s) @ [q])"

fun join :: "string \<Rightarrow> string list \<Rightarrow> string" where
  "join sep [] = []"
| "join sep [x] = x"
| "join sep (x # y # ys) = x @ sep @ join sep (y # ys)"

fun py_repr :: "pyval \<Rightarrow> string" where
  "py_repr PNone = ''None''"
| "py_repr (PBool b) = (if b then ''True'' else ''False'')"
| "py_repr (PInt i) = str_of_int i"
| "py_repr (PStr s) = repr_str s"
| "py_repr PNaN = ''nan''"
| "py_repr (PList xs) = ''['' @ join '', '' (map py_repr xs) @ '']''"
| "py_repr (PDict d) =
     ''{'' @ join '', '' (map (\<lambda>kv. repr_str (fst kv) @ '': '' @ py_repr (snd kv)) d) @ ''}''"

text \<open>
  \<^verbatim>\<open>str(x)\<close>, which is also what an f-string field \<^verbatim>\<open>{x}\<close> with no format specification
  inserts for these values.
\<close>

fun py_str :: "pyval \<Rightarrow> string" where
  "py_str (PStr s) = s"
| "py_str v = py_repr v"

text \<open>\<^verbatim>\<open>s.lower()\<close> on code points below 256.\<close>

definition lower_char :: "char \<Rightarrow> char" where
  "lower_char c =
     (let n = (of_char c :: nat) in
      if (65 \<le> n \<and> n \<le> 90) \<or> (192 \<le> n \<and> n \<le> 222 \<and> n \<noteq> 215) then char_of (n + 32) else c)"

definition lower :: "string \<Rightarrow> string" where
  "lower s = map lower_char s"

section \<open>Dates\<close>

text \<open>
  A \<^verbatim>\<open>datetime\<close> is used for its calendar date only (the requests carry
  \<^verbatim>\<open>strftime('%Y-%m-%d')\<close>), so the time of day is left out. The calendar is the
  proleptic Gregorian one of Python's \<^verbatim>\<open>datetime\<close>, years 1 to 9999.
\<close>

record date =
  year :: nat
  month :: nat
  day :: nat

definition is_leap :: "nat \<Rightarrow> bool" where
  "is_leap y = (y mod 4 = 0 \<and> (y mod 100 \<noteq> 0 \<or> y mod 400 = 0))"

definition days_in_month :: "nat \<Rightarrow> nat \<Rightarrow> nat" where
  "days_in_month y m =
     (if m = 2 then (if is_leap y then 29 else 28)
      else if m = 4 \<or> m = 6 \<or> m = 9 \<or> m = 11 then 30 else 31)"

definition valid_date :: "date \<Rightarrow> bool" where
  "valid_date d =
     (1 \<le> year d \<and> year d \<le> 9999 \<and> 1 \<le> month d \<and> month d \<le> 12 \<and>
      1 \<le> day d \<and> day d \<le> days_in_month (year d) (month d))"

text \<open>\<^verbatim>\<open>d - timedelta(days=1)\<close>; it raises below the first day of year 1.\<close>

definition minus_one_day :: "date \<Rightarrow> py_error + date" where
  "minus_one_day d =
     (if 1 < day d then Inr (d\<lparr>day := day d - 1\<rparr>)
      else if 1 < month d
        then Inr (d\<lparr>month := month d - 1, day := days_in_month (year d) (month d - 1)\<rparr>)
      else if 1 < year d then Inr (d\<lparr>year := year d - 1, month := 12, day := 31\<rparr>)
      else Inl (Raised OverflowError ''date value out of range''))"

text \<open>\<^verbatim>\<open>d.replace(day=n)\<close>.\<close>

definition replace_day :: "date \<Rightarrow> nat \<Rightarrow> py_error + date" where
  "replace_day d n =
     (if 1 \<le> n \<and> n \<le> days_in_month (year d) (month d) then Inr (d\<lparr>day := n\<rparr>)
      else Inl (Raised ValueError ''day is out of range for month''))"

text \<open>
  The date range of the entry point (\<^verbatim>\<open>__main__\<close>), as (start, end), from the date of
  \<^verbatim>\<open>datetime.today()\<close>:
  \<^verbatim>\<open>
    _end_date = datetime.today() - timedelta(days=1)
    _start_date = _end_date.replace(day=1)
  \<close>
\<close>

definition default_date_range :: "date \<Rightarrow> py_error + (date \<times> date)" where
  "default_date_range today =
     (case minus_one_day today of
        Inl e \<Rightarrow> Inl e
      | Inr end_date \<Rightarrow>
          (case replace_day end_date 1 of
             Inl e \<Rightarrow> Inl e
           | Inr start_date \<Rightarrow> Inr (start_date, end_date)))"

text \<open>
  The range in the words of the specification: "first day of previous month through
  yesterday". The first day of the month before the one of the run date:
\<close>

definition first_of_previous_month :: "date \<Rightarrow> date" where
  "first_of_previous_month today =
     (if month today = 1 then today\<lparr>year := year today - 1, month := 12, day := 1\<rparr>
      else today\<lparr>month := month today - 1, day := 1\<rparr>)"

text \<open>Day number of a date, counted from 0001-01-01 as day 1 (\<^verbatim>\<open>date.toordinal\<close>).\<close>

definition days_before_year :: "nat \<Rightarrow> nat" where
  "days_before_year y = (y - 1) * 365 + (y - 1) div 4 - (y - 1) div 100 + (y - 1) div 400"

fun days_before_month :: "nat \<Rightarrow> nat \<Rightarrow> nat" where
  "days_before_month y 0 = 0"
| "days_before_month y (Suc 0) = 0"
| "days_before_month y (Suc m) = days_before_month y m + days_in_month y m"

definition toordinal :: "date \<Rightarrow> nat" where
  "toordinal d = days_before_year (year d) + days_before_month (year d) (month d) + day d"

section \<open>Effects\<close>

text \<open>
  What a run does to the outside is a list of events, in order: the requests sent to the
  vendor API and the log records of level WARNING and ERROR.
\<close>

record request =
  req_api_key :: string
  req_page :: nat
  req_size :: nat
  req_start :: date
  req_end :: date

datatype level = WARNING | ERROR

datatype event = Request request | Log level string

section \<open>Phone normalization\<close>

text \<open>
  \<^verbatim>\<open>normalize_phone\<close>, local to \<^verbatim>\<open>get_vendors_report\<close>. \<open>normalize_phone_try\<close> is
  the body of its \<^verbatim>\<open>try\<close>, \<open>normalize_phone\<close> adds the \<^verbatim>\<open>except Exception\<close>
  handler, which logs a warning and returns the empty string.
\<close>

definition normalize_phone_try :: "pyval \<Rightarrow> py_error + pyval" where
  "normalize_phone_try phone =
     (case phone of
        PDict d \<Rightarrow>
          (let phone_code = dict_get d ''phone_code'' (PInt 0);
               number = dict_get d ''number'' (PStr '''')
           in if \<not> truthy number then Inr (PStr '''')
              else if truthy phone_code \<and> ne_zero phone_code
                then Inr (PStr (py_str phone_code @ py_str number))
              else Inr number)
      | _ \<Rightarrow> Inr (if truthy phone then PStr (py_str phone) else PStr ''''))"

definition normalize_phone_except :: "pyval \<Rightarrow> py_error \<Rightarrow> event list \<times> pyval" where
  "normalize_phone_except phone e =
     ([Log WARNING (''Error normalizing phone '' @ py_str phone @ '': '' @ exc_text e)],
      PStr '''')"

definition normalize_phone :: "pyval \<Rightarrow> event list \<times> pyval" where
  "normalize_phone phone =
     (case normalize_phone_try phone of
        Inr v \<Rightarrow> ([], v)
      | Inl e \<Rightarrow> normalize_phone_except phone e)"

section \<open>Vendor Fetcher\<close>

text \<open>
  The configuration is the parsed JSON file: \<^verbatim>\<open>org_to_api_key\<close> maps organization keys to
  API keys, \<^verbatim>\<open>centers_by_key\<close> maps an API key to its table from center ids to center
  names. Either top-level key may be absent, which the source treats differently
  (\<^verbatim>\<open>config.get('org_to_api_key', {})\<close> against \<^verbatim>\<open>config['centers_by_key']\<close>).
\<close>

record config =
  org_to_api_key :: "string pydict option"
  centers_by_key :: "pyval pydict pydict option"

type_synonym vendor = "pyval pydict"

text \<open>
  The vendor API answers a request either with a failure that \<^verbatim>\<open>requests\<close> raises as a
  \<^verbatim>\<open>RequestException\<close> (connection error, HTTP error status, body that is not JSON), or
  with a JSON object whose values are lists of vendor records. The API is a function of
  the request.
\<close>

datatype response = TransportError string | Body "vendor list pydict"

type_synonym api = "request \<Rightarrow> response"

text \<open>What \<^verbatim>\<open>fetch_vendors\<close> returns: \<^verbatim>\<open>{}\<close> or \<^verbatim>\<open>{'vendors': all_vendors}\<close>.\<close>

type_synonym fetch_result = "vendor list pydict"

type_synonym 'a outcome = "event list \<times> (py_error + 'a)"

fun hashable :: "pyval \<Rightarrow> bool" where
  "hashable (PList xs) = False"
| "hashable (PDict d) = False"
| "hashable v = True"

fun type_name :: "pyval \<Rightarrow> string" where
  "type_name PNone = ''NoneType''"
| "type_name (PBool b) = ''bool''"
| "type_name (PInt i) = ''int''"
| "type_name (PStr s) = ''str''"
| "type_name PNaN = ''float''"
| "type_name (PList xs) = ''list''"
| "type_name (PDict d) = ''dict''"

text \<open>
  \<^verbatim>\<open>centers.get(cid, cid)\<close> on a table whose keys are strings: a key that is a list or a
  dict cannot be hashed, a key that is not a string is never found.
\<close>

definition centers_get :: "pyval pydict \<Rightarrow> pyval \<Rightarrow> py_error + pyval" where
  "centers_get centers cid =
     (if \<not> hashable cid
        then Inl (Raised TypeError (''unhashable type: '' @ [CHR 0x27] @ type_name cid @ [CHR 0x27]))
      else (case cid of PStr s \<Rightarrow> Inr (dict_get centers s cid) | _ \<Rightarrow> Inr cid))"

text \<open>
  The body of the loop over the vendors of a page:
  \<^verbatim>\<open>
    if 'center_id' in vendor:
        vendor['center_name'] = centers.get(vendor['center_id'], vendor['center_id'])
        vendor.pop('center_id', None)
  \<close>
\<close>

definition map_center :: "pyval pydict \<Rightarrow> vendor \<Rightarrow> py_error + vendor" where
  "map_center centers vendor =
     (if dict_has vendor ''center_id''
        then (case centers_get centers (dict_get vendor ''center_id'' PNone) of
                Inl e \<Rightarrow> Inl e
              | Inr name \<Rightarrow> Inr (dict_pop (dict_set vendor ''center_name'' name) ''center_id''))
      else Inr vendor)"

fun map_centers :: "pyval pydict \<Rightarrow> vendor list \<Rightarrow> py_error + vendor list" where
  "map_centers centers [] = Inr []"
| "map_centers centers (v # vs) =
     (case map_center centers v of
        Inl e \<Rightarrow> Inl e
      | Inr v' \<Rightarrow>
          (case map_centers centers vs of
             Inl e \<Rightarrow> Inl e
           | Inr vs' \<Rightarrow> Inr (v' # vs')))"

text \<open>
  \<^verbatim>\<open>centers = config['centers_by_key'].get(api_key, {})\<close>, then the loop over the
  vendors of the page.
\<close>

definition centers_of :: "config \<Rightarrow> string \<Rightarrow> py_error + pyval pydict" where
  "centers_of cfg api_key =
     (case centers_by_key cfg of
        None \<Rightarrow> Inl (Raised KeyError (repr_str ''centers_by_key''))
      | Some cbk \<Rightarrow> Inr (dict_get cbk api_key []))"

definition map_page :: "config \<Rightarrow> string \<Rightarrow> vendor list \<Rightarrow> py_error + vendor list" where
  "map_page cfg api_key vendors =
     (case centers_of cfg api_key of
        Inl e \<Rightarrow> Inl e
      | Inr centers \<Rightarrow> map_centers centers vendors)"

definition size_const :: nat where
  "size_const = 100"

definition make_request :: "string \<Rightarrow> date \<Rightarrow> date \<Rightarrow> nat \<Rightarrow> request" where
  "make_request api_key start_date end_date page =
     \<lparr>req_api_key = api_key, req_page = page, req_size = size_const,
      req_start = start_date, req_end = end_date\<rparr>"

text \<open>\<^verbatim>\<open>data.get('vendors', []) or data.get('data', [])\<close>.\<close>

definition page_vendors :: "vendor list pydict \<Rightarrow> vendor list" where
  "page_vendors data =
     (if dict_get data ''vendors'' [] \<noteq> [] then dict_get data ''vendors'' []
      else dict_get data ''data'' [])"

text \<open>
  The \<^verbatim>\<open>while True\<close> loop of \<^verbatim>\<open>fetch_vendors\<close>, from the state (\<open>page\<close>,
  \<open>all_vendors\<close>) and the events so far. The loop ends only when a page is empty, a
  request fails or an exception escapes, so it need not end: \<open>None\<close> is the run that
  never returns.
\<close>

partial_function (option) fetch_loop ::
  "api \<Rightarrow> config \<Rightarrow> string \<Rightarrow> string \<Rightarrow> date \<Rightarrow> date \<Rightarrow> nat \<Rightarrow> vendor list \<Rightarrow> event list
     \<Rightarrow> fetch_result outcome option"
where
  "fetch_loop api cfg org api_key start_date end_date page all_vendors tr =
     (let tr' = tr @ [Request (make_request api_key start_date end_date page)] in
      case api (make_request api_key start_date end_date page) of
        TransportError msg \<Rightarrow>
          Some (tr' @ [Log ERROR (''Error fetching page '' @ str_of_nat page @ '' for '' @ org
                                   @ '': '' @ msg)],
                Inr [])
      | Body data \<Rightarrow>
          if page_vendors data = [] then Some (tr', Inr [(''vendors'', all_vendors)])
          else (case map_page cfg api_key (page_vendors data) of
                  Inl e \<Rightarrow> Some (tr', Inl e)
                | Inr vendors \<Rightarrow>
                    fetch_loop api cfg org api_key start_date end_date (page + 1)
                      (all_vendors @ vendors) tr'))"

declare fetch_loop.simps [code]

definition lookup_api_key :: "config \<Rightarrow> string \<Rightarrow> string option" where
  "lookup_api_key cfg org =
     map_of (case org_to_api_key cfg of None \<Rightarrow> [] | Some m \<Rightarrow> m) (lower org)"

definition fetch_vendors ::
  "api \<Rightarrow> string \<Rightarrow> date \<Rightarrow> date \<Rightarrow> config \<Rightarrow> fetch_result outcome option" where
  "fetch_vendors api org start_date end_date cfg =
     (case lookup_api_key cfg org of
        None \<Rightarrow> Some ([Log ERROR (''No API key found for organization: '' @ org)], Inr [])
      | Some api_key \<Rightarrow>
          if api_key = [] then
            Some ([Log ERROR (''No API key found for organization: '' @ org)], Inr [])
          else fetch_loop api cfg org api_key start_date end_date 1 [] [])"

text \<open>
  Three views of the API, used to state what a fetch does. \<open>raw_page\<close> is the vendor
  list of page \<open>p\<close>, \<open>None\<close> when the request fails. A page is \<open>full_page\<close> when it has
  records and the center mapping of all of them succeeds; \<open>mapped_page\<close> is then the
  list the loop appends.
\<close>

definition raw_page :: "api \<Rightarrow> string \<Rightarrow> date \<Rightarrow> date \<Rightarrow> nat \<Rightarrow> vendor list option" where
  "raw_page api api_key start_date end_date p =
     (case api (make_request api_key start_date end_date p) of
        TransportError msg \<Rightarrow> None
      | Body data \<Rightarrow> Some (page_vendors data))"

definition full_page :: "api \<Rightarrow> config \<Rightarrow> string \<Rightarrow> date \<Rightarrow> date \<Rightarrow> nat \<Rightarrow> bool" where
  "full_page api cfg api_key start_date end_date p =
     (case raw_page api api_key start_date end_date p of
        None \<Rightarrow> False
      | Some vs \<Rightarrow> vs \<noteq> [] \<and> (case map_page cfg api_key vs of Inl e \<Rightarrow> False | Inr vs' \<Rightarrow> True))"

definition mapped_page :: "api \<Rightarrow> config \<Rightarrow> string \<Rightarrow> date \<Rightarrow> date \<Rightarrow> nat \<Rightarrow> vendor list" where
  "mapped_page api cfg api_key start_date end_date p =
     (case raw_page api api_key start_date end_date p of
        None \<Rightarrow> []
      | Some vs \<Rightarrow> (case map_page cfg api_key vs of Inl e \<Rightarrow> [] | Inr vs' \<Rightarrow> vs'))"

definition page_length :: "api \<Rightarrow> string \<Rightarrow> date \<Rightarrow> date \<Rightarrow> nat \<Rightarrow> nat" where
  "page_length api api_key start_date end_date p =
     (case raw_page api api_key start_date end_date p of None \<Rightarrow> 0 | Some vs \<Rightarrow> length vs)"

text \<open>The name a center id resolves to: \<^verbatim>\<open>centers.get(cid, cid)\<close> for a hashable id.\<close>

definition center_name_of :: "pyval pydict \<Rightarrow> pyval \<Rightarrow> pyval" where
  "center_name_of centers cid = (case cid of PStr s \<Rightarrow> dict_get centers s cid | _ \<Rightarrow> cid)"

section \<open>Report Builder\<close>

text \<open>
  A \<^verbatim>\<open>DataFrame\<close> is its column labels and its rows, every row with one cell for each
  column. Built from a list of records, the columns are the field names in the order in
  which they first appear and a cell that a record does not have is NaN. The cells keep
  the Python values: the way pandas stores a column of numbers is outside the model.
\<close>

record dataframe =
  columns :: "string list"
  rows :: "pyval list list"

fun first_seen :: "string list \<Rightarrow> string list \<Rightarrow> string list" where
  "first_seen seen [] = []"
| "first_seen seen (k # ks) =
     (if k \<in> set seen then first_seen seen ks else k # first_seen (k # seen) ks)"

definition DataFrame :: "vendor list \<Rightarrow> dataframe" where
  "DataFrame records =
     (let cols = first_seen [] (concat (map (map fst) records)) in
      \<lparr>columns = cols, rows = map (\<lambda>r. map (\<lambda>c. dict_get r c PNaN) cols) records\<rparr>)"

text \<open>
  \<^verbatim>\<open>dataframe['work_phone'] = dataframe['work_phone'].apply(normalize_phone)\<close>, when
  the frame has that column.
\<close>

definition normalize_row :: "string list \<Rightarrow> pyval list \<Rightarrow> event list \<times> pyval list" where
  "normalize_row cols r =
     (let cells = map (\<lambda>(c, x). if c = ''work_phone'' then normalize_phone x else ([], x))
                      (zip cols r)
      in (concat (map fst cells), map snd cells))"

definition normalize_work_phone :: "dataframe \<Rightarrow> event list \<times> dataframe" where
  "normalize_work_phone df =
     (if ''work_phone'' \<in> set (columns df)
        then (let rs = map (normalize_row (columns df)) (rows df)
              in (concat (map fst rs), df\<lparr>rows := map snd rs\<rparr>))
      else ([], df))"

text \<open>
  The cleaning pass: the column \<^verbatim>\<open>work_phone\<close> is renamed to \<^verbatim>\<open>Work Phone\<close>, and a
  column \<^verbatim>\<open>center_name\<close> of empty strings is added when there is none.
\<close>

definition clean_format :: "dataframe \<Rightarrow> dataframe" where
  "clean_format df =
     (let df1 = (if ''work_phone'' \<in> set (columns df)
                 then df\<lparr>columns := map (\<lambda>c. if c = ''work_phone'' then ''Work Phone'' else c)
                                          (columns df)\<rparr>
                 else df)
      in if ''center_name'' \<notin> set (columns df1)
           then df1\<lparr>columns := columns df1 @ [''center_name''],
                    rows := map (\<lambda>r. r @ [PStr '''']) (rows df1)\<rparr>
         else df1)"

text \<open>
  \<^verbatim>\<open>load_zenoti_config\<close> (\<^verbatim>\<open>src/zenoti_utils/config.py\<close>) on the three states of the
  configuration file.
\<close>

datatype config_file = Missing | Invalid string | Parsed config

definition config_path :: string where
  "config_path = ''C:/Users/softwaredeveloper/Desktop/Silkor/Kunal Project/Config/zenoti_centers.json''"

definition load_zenoti_config :: "config_file \<Rightarrow> config outcome" where
  "load_zenoti_config file =
     (case file of
        Missing \<Rightarrow>
          ([Log ERROR (''Configuration file not found: '' @ config_path)],
           Inl (Raised FileNotFoundError (''Configuration file not found: '' @ config_path)))
      | Invalid msg \<Rightarrow>
          ([Log ERROR (''Invalid JSON in configuration file '' @ config_path @ '': '' @ msg)],
           Inl (Raised JSONDecodeError msg))
      | Parsed cfg \<Rightarrow> ([], Inr cfg))"

text \<open>The argument \<^verbatim>\<open>organizations: List[str] | str\<close>.\<close>

datatype orgs_arg = OrgList "string list" | OrgStr string

definition as_list :: "orgs_arg \<Rightarrow> string list" where
  "as_list organizations = (case organizations of OrgStr s \<Rightarrow> [s] | OrgList l \<Rightarrow> l)"

definition valid_orgs_of :: "config \<Rightarrow> string list \<Rightarrow> string list" where
  "valid_orgs_of cfg organizations =
     filter (\<lambda>org. dict_has (case org_to_api_key cfg of None \<Rightarrow> [] | Some m \<Rightarrow> m) (lower org))
            organizations"

text \<open>
  \<^verbatim>\<open>raw_data = {org: fetch_vendors(org, ...) for org in valid_orgs}\<close>: one fetch after
  the other; an exception or a fetch that never returns ends the comprehension.
\<close>

fun fetch_all ::
  "api \<Rightarrow> config \<Rightarrow> date \<Rightarrow> date \<Rightarrow> string list \<Rightarrow> fetch_result pydict \<Rightarrow> event list
     \<Rightarrow> fetch_result pydict outcome option"
where
  "fetch_all api cfg start_date end_date [] raw_data tr = Some (tr, Inr raw_data)"
| "fetch_all api cfg start_date end_date (org # orgs) raw_data tr =
     (case fetch_vendors api org start_date end_date cfg of
        None \<Rightarrow> None
      | Some (tr1, Inl e) \<Rightarrow> Some (tr @ tr1, Inl e)
      | Some (tr1, Inr data) \<Rightarrow>
          fetch_all api cfg start_date end_date orgs (dict_set raw_data org data) (tr @ tr1))"

text \<open>
  The validation loop: the first organization of \<^verbatim>\<open>raw_data\<close> whose result is falsy or
  has no key \<^verbatim>\<open>vendors\<close>.
\<close>

definition no_vendors_data :: "fetch_result \<Rightarrow> bool" where
  "no_vendors_data data = (data = [] \<or> \<not> dict_has data ''vendors'')"

definition first_invalid :: "fetch_result pydict \<Rightarrow> string option" where
  "first_invalid raw_data =
     (case filter (\<lambda>(org, data). no_vendors_data data) raw_data of
        [] \<Rightarrow> None
      | (org, data) # rest \<Rightarrow> Some org)"

text \<open>
  \<^verbatim>\<open>{org: raw_data[org]["vendors"] for org in valid_orgs if "vendors" in raw_data[org].keys()}\<close>.
\<close>

fun extract_data :: "fetch_result pydict \<Rightarrow> string list \<Rightarrow> vendor list pydict \<Rightarrow> vendor list pydict"
where
  "extract_data raw_data [] acc = acc"
| "extract_data raw_data (org # orgs) acc =
     (if dict_has (dict_get raw_data org []) ''vendors''
        then extract_data raw_data orgs
               (dict_set acc org (dict_get (dict_get raw_data org []) ''vendors'' []))
      else extract_data raw_data orgs acc)"

definition build_tables :: "vendor list pydict \<Rightarrow> event list \<times> dataframe pydict" where
  "build_tables extracted_data =
     (let dataframes = map (\<lambda>(org, df). (org, DataFrame df)) extracted_data;
          normalized = map (\<lambda>(org, df). (org, normalize_work_phone df)) dataframes
      in (concat (map (\<lambda>(org, r). fst r) normalized),
          map (\<lambda>(org, r). (org, clean_format (snd r))) normalized))"

definition get_vendors_report ::
  "config_file \<Rightarrow> api \<Rightarrow> orgs_arg \<Rightarrow> date \<Rightarrow> date \<Rightarrow> dataframe pydict outcome option" where
  "get_vendors_report file api organizations start_date end_date =
     (case load_zenoti_config file of
        (tr0, Inl e) \<Rightarrow> Some (tr0, Inl e)
      | (tr0, Inr cfg) \<Rightarrow>
          (let valid_orgs = valid_orgs_of cfg (as_list organizations)
           in if valid_orgs = [] then
                Some (tr0 @ [Log ERROR ''No valid organizations found in config.''],
                      Inl (Raised ValueError ''No valid organizations found in config.''))
              else
                (case fetch_all api cfg start_date end_date valid_orgs [] tr0 of
                   None \<Rightarrow> None
                 | Some (tr, Inl e) \<Rightarrow> Some (tr, Inl e)
                 | Some (tr, Inr raw_data) \<Rightarrow>
                     (case first_invalid raw_data of
                        Some org \<Rightarrow>
                          Some (tr @ [Log ERROR (''No vendors data found for '' @ org @ ''.'')],
                                Inl (Raised ValueError
                                       (''No vendors data found for '' @ org @ ''.'')))
                      | None \<Rightarrow>
                          (let (tr2, dataframes) =
                                 build_tables (extract_data raw_data valid_orgs [])
                           in Some (tr @ tr2, Inr dataframes))))))"

text \<open>The finished table of one organization, from its vendor list.\<close>

definition table_of :: "vendor list \<Rightarrow> dataframe" where
  "table_of vs = clean_format (snd (normalize_work_phone (DataFrame vs)))"

section \<open>Exporter\<close>

text \<open>
  The file system and the spreadsheet writer, as the exporter sees them: each operation
  succeeds (\<open>None\<close>) or raises. \<open>path_join\<close> is \<^verbatim>\<open>os.path.join\<close>, which depends on
  the platform.
\<close>

record fs =
  makedirs :: "string \<Rightarrow> py_error option"
  path_join :: "string \<Rightarrow> string \<Rightarrow> string"
  open_writer :: "string \<Rightarrow> py_error option"
  to_excel :: "string \<Rightarrow> string \<Rightarrow> dataframe \<Rightarrow> py_error option"
  close_writer :: "string \<Rightarrow> py_error option"

text \<open>The sheets are written in order; the first failure ends the loop.\<close>

fun write_sheets :: "fs \<Rightarrow> string \<Rightarrow> dataframe pydict \<Rightarrow> py_error option" where
  "write_sheets env output_file [] = None"
| "write_sheets env output_file ((org, df) # rest) =
     (case to_excel env output_file org df of
        Some e \<Rightarrow> Some e
      | None \<Rightarrow> write_sheets env output_file rest)"

text \<open>
  The \<^verbatim>\<open>with pd.ExcelWriter(...) as writer\<close> block: the writer is closed when the block
  is left, also by an exception, and a failure of the close replaces that exception.
\<close>

definition with_writer :: "fs \<Rightarrow> string \<Rightarrow> dataframe pydict \<Rightarrow> py_error option" where
  "with_writer env output_file data =
     (case open_writer env output_file of
        Some e \<Rightarrow> Some e
      | None \<Rightarrow>
          (case write_sheets env output_file data of
             Some e \<Rightarrow> (case close_writer env output_file of Some e' \<Rightarrow> Some e' | None \<Rightarrow> Some e)
           | None \<Rightarrow> close_writer env output_file))"

definition export_orgs_to_excel ::
  "fs \<Rightarrow> dataframe pydict \<Rightarrow> string \<Rightarrow> string \<Rightarrow> string \<Rightarrow> unit outcome" where
  "export_orgs_to_excel env data output_dir report_name date_str =
     (case makedirs env output_dir of
        Some e \<Rightarrow> ([], Inl e)
      | None \<Rightarrow>
          (let output_file = path_join env output_dir (report_name @ ''_'' @ date_str @ ''.xlsx'')
           in case with_writer env output_file data of
                None \<Rightarrow> ([], Inr ())
              | Some e \<Rightarrow>
                  ([Log ERROR (''Error saving to Excel file '' @ output_file @ '': '' @ exc_text e)],
                   Inr ())))"

section \<open>Properties\<close>

subsection \<open>Phone normalization\<close>

lemma str_of_int_971: "str_of_int 971 = ''971''"
  by code_simp

text \<open>
  Claim C2. For every value \<open>phone\<close> of the field \<^verbatim>\<open>work_phone\<close>: a value that is not a
  dict becomes its string form, or the empty string when it is falsy; a dict whose
  \<^verbatim>\<open>number\<close> is empty (or absent) becomes the empty string; a dict with a non-zero
  \<^verbatim>\<open>phone_code\<close> (truthy and not equal to 0, which for an integer code is just being
  different from 0) becomes the code followed by the number; any other dict becomes its
  number alone. No value makes the body raise, and the handler, were it entered, would
  give the empty string.
\<close>

theorem normalize_phone_cases:
  "(\<not> is_dict phone \<longrightarrow>
      normalize_phone phone = ([], PStr (if truthy phone then py_str phone else '''')))
   \<and> (\<forall>d. phone = PDict d \<longrightarrow>
        (let phone_code = dict_get d ''phone_code'' (PInt 0);
             number = dict_get d ''number'' (PStr '''')
         in normalize_phone phone =
              ([], if \<not> truthy number then PStr ''''
                   else if truthy phone_code \<and> ne_zero phone_code
                     then PStr (py_str phone_code @ py_str number)
                   else number)))
   \<and> (\<forall>c. (truthy (PInt c) \<and> ne_zero (PInt c)) = (c \<noteq> 0))
   \<and> (\<forall>e. normalize_phone_try phone \<noteq> Inl e)
   \<and> (\<forall>e. snd (normalize_phone_except phone e) = PStr '''')"
  by (cases phone) (simp_all add: normalize_phone_def normalize_phone_try_def
      normalize_phone_except_def Let_def)

theorem normalize_phone_cases_witness:
  "normalize_phone (PDict [(''phone_code'', PInt 971), (''number'', PStr ''501234567'')])
     = ([], PStr ''971501234567'')
   \<and> normalize_phone (PDict [(''phone_code'', PInt 0), (''number'', PStr ''501234567'')])
     = ([], PStr ''501234567'')
   \<and> normalize_phone (PDict [(''number'', PStr '''')]) = ([], PStr '''')
   \<and> normalize_phone (PStr ''12345'') = ([], PStr ''12345'')"
  using normalize_phone_cases [of "PDict [(''phone_code'', PInt 971), (''number'', PStr ''501234567'')]"]
    normalize_phone_cases [of "PDict [(''phone_code'', PInt 0), (''number'', PStr ''501234567'')]"]
    normalize_phone_cases [of "PDict [(''number'', PStr '''')]"]
    normalize_phone_cases [of "PStr ''12345''"]
  by (simp add: dict_get_def str_of_int_971 Let_def)

subsection \<open>The default date range\<close>

lemma days_in_month_pos: "Suc 0 \<le> days_in_month y m" "1 \<le> days_in_month y m"
  by (simp_all add: days_in_month_def)

lemma days_before_month_Suc:
  "1 \<le> m \<Longrightarrow> days_before_month y (Suc m) = days_before_month y m + days_in_month y m"
  by (cases m) simp_all

lemma days_before_month_12:
  "days_before_month y 12 = (if is_leap y then 335 else 334)"
proof -
  note s = days_before_month_Suc [where y = y]
  have "days_before_month y 2 = 31"
    by (simp add: numeral_2_eq_2 days_in_month_def)
  then have "days_before_month y 3 = (if is_leap y then 60 else 59)"
    using s [of 2] by (simp add: days_in_month_def)
  then have "days_before_month y 4 = (if is_leap y then 91 else 90)"
    using s [of 3] by (simp add: days_in_month_def)
  then have "days_before_month y 5 = (if is_leap y then 121 else 120)"
    using s [of 4] by (simp add: days_in_month_def)
  then have "days_before_month y 6 = (if is_leap y then 152 else 151)"
    using s [of 5] by (simp add: days_in_month_def)
  then have "days_before_month y 7 = (if is_leap y then 182 else 181)"
    using s [of 6] by (simp add: days_in_month_def)
  then have "days_before_month y 8 = (if is_leap y then 213 else 212)"
    using s [of 7] by (simp add: days_in_month_def)
  then have "days_before_month y 9 = (if is_leap y then 244 else 243)"
    using s [of 8] by (simp add: days_in_month_def)
  then have "days_before_month y 10 = (if is_leap y then 274 else 273)"
    using s [of 9] by (simp add: days_in_month_def)
  then have "days_before_month y 11 = (if is_leap y then 305 else 304)"
    using s [of 10] by (simp add: days_in_month_def)
  then show ?thesis
    using s [of 11] by (simp add: days_in_month_def)
qed

lemma mod_400_100: "(n::nat) mod 400 = 0 \<Longrightarrow> n mod 100 = 0"
proof -
  assume "n mod 400 = 0"
  then have "400 dvd n" by (simp add: mod_eq_0_iff_dvd)
  moreover have "(100::nat) dvd 400" by simp
  ultimately have "100 dvd n" by (rule dvd_trans [rotated])
  then show ?thesis by (simp add: mod_eq_0_iff_dvd)
qed

lemma mod_100_4: "(n::nat) mod 100 = 0 \<Longrightarrow> n mod 4 = 0"
proof -
  assume "n mod 100 = 0"
  then have "100 dvd n" by (simp add: mod_eq_0_iff_dvd)
  moreover have "(4::nat) dvd 100" by simp
  ultimately have "4 dvd n" by (rule dvd_trans [rotated])
  then show ?thesis by (simp add: mod_eq_0_iff_dvd)
qed

lemma days_before_year_step:
  assumes "1 < y"
  shows "days_before_year y = days_before_year (y - 1) + (if is_leap (y - 1) then 366 else 365)"
proof -
  define k where "k = y - 2"
  have k: "y = Suc (Suc k)"
    using assms by (simp add: k_def)
  have le: "k div 100 \<le> k div 4" by (rule div_le_mono2) simp_all
  show ?thesis
    using le mod_400_100 [of "Suc k"] mod_100_4 [of "Suc k"]
    unfolding k days_before_year_def is_leap_def
    by (auto simp: div_Suc ac_simps)
qed

text \<open>
  Claim C8, as stated, at the run date 2025-10-15: the range starts on 2025-10-01, the
  first day of the current month, while the first day of the previous month is 2025-09-01.
\<close>

theorem default_date_range_previous_month_counterexample:
  "valid_date \<lparr>year = 2025, month = 10, day = 15\<rparr>
   \<and> default_date_range \<lparr>year = 2025, month = 10, day = 15\<rparr>
       = Inr (\<lparr>year = 2025, month = 10, day = 1\<rparr>, \<lparr>year = 2025, month = 10, day = 14\<rparr>)
   \<and> first_of_previous_month \<lparr>year = 2025, month = 10, day = 15\<rparr>
       = \<lparr>year = 2025, month = 9, day = 1\<rparr>
   \<and> \<lparr>year = 2025, month = 10, day = 1\<rparr> \<noteq> \<lparr>year = 2025, month = 9, day = (1::nat)\<rparr>"
  by (simp add: default_date_range_def minus_one_day_def replace_day_def
      first_of_previous_month_def valid_date_def days_in_month_def)

text \<open>
  Claim C8, amended. For every run date after 0001-01-01 the range ends yesterday (a valid
  date whose day number is one less than today's) and starts on the first day of the
  month that contains yesterday. That is the first day of the previous month exactly when
  the run date is the first day of a month; on any other day it is the first day of the
  current month.
\<close>

theorem default_date_range_month_of_yesterday:
  assumes "valid_date today" and "today \<noteq> \<lparr>year = 1, month = 1, day = 1\<rparr>"
  shows "\<exists>end_date. minus_one_day today = Inr end_date
           \<and> valid_date end_date
           \<and> toordinal end_date + 1 = toordinal today
           \<and> default_date_range today = Inr (end_date\<lparr>day := 1\<rparr>, end_date)
           \<and> (end_date\<lparr>day := 1\<rparr> = first_of_previous_month today \<longleftrightarrow> day today = 1)
           \<and> (1 < day today \<longrightarrow> end_date\<lparr>day := 1\<rparr> = today\<lparr>day := 1\<rparr>)"
proof -
  have pos: "1 \<le> day today" "1 \<le> month today" "1 \<le> year today"
    using assms(1) by (simp_all add: valid_date_def)
  have "\<not> (day today = 1 \<and> month today = 1 \<and> year today = 1)"
    using assms(2) by (cases today) auto
  with pos consider (d) "1 < day today"
    | (m) "day today = 1" "1 < month today"
    | (y) "day today = 1" "month today = 1" "1 < year today"
    by linarith
  then show ?thesis
  proof cases
    case d
    with assms(1) show ?thesis
      by (cases today)
        (auto simp: minus_one_day_def default_date_range_def replace_day_def valid_date_def
          toordinal_def first_of_previous_month_def days_in_month_pos)
  next
    case m
    then obtain k where k: "month today = Suc k" "1 \<le> k"
      by (cases "month today") auto
    with m assms(1) show ?thesis
      by (cases today)
        (auto simp: minus_one_day_def default_date_range_def replace_day_def valid_date_def
          toordinal_def first_of_previous_month_def days_in_month_pos days_before_month_Suc)
  next
    case y
    with assms(1) show ?thesis
      using days_before_year_step [of "year today"]
      by (cases today)
        (auto simp: minus_one_day_def default_date_range_def replace_day_def valid_date_def
          toordinal_def first_of_previous_month_def days_in_month_def days_before_month_12)
  qed
qed

theorem default_date_range_month_of_yesterday_witness:
  "valid_date \<lparr>year = 2025, month = 3, day = 1\<rparr>
   \<and> default_date_range \<lparr>year = 2025, month = 3, day = 1\<rparr>
       = Inr (\<lparr>year = 2025, month = 2, day = 1\<rparr>, \<lparr>year = 2025, month = 2, day = 28\<rparr>)"
proof -
  have v: "valid_date \<lparr>year = 2025, month = 3, day = 1\<rparr>"
    by (simp add: valid_date_def days_in_month_def)
  have n: "\<lparr>year = 2025, month = 3, day = 1\<rparr> \<noteq> \<lparr>year = 1, month = 1, day = (1::nat)\<rparr>"
    by simp
  have m: "minus_one_day \<lparr>year = 2025, month = 3, day = 1\<rparr>
             = Inr \<lparr>year = 2025, month = 2, day = 28\<rparr>"
    by (simp add: minus_one_day_def days_in_month_def is_leap_def)
  from default_date_range_month_of_yesterday [OF v n] m v show ?thesis
    by auto
qed

subsection \<open>Vendor Fetcher: the API key\<close>

text \<open>
  Claim C7. When the configuration has no API key for the lowercased organization key,
  or an empty one, \<open>fetch_vendors\<close> returns the empty mapping. It raises nothing, and the
  only event is the error record: no request is sent.
\<close>

theorem fetch_vendors_without_api_key:
  assumes "lookup_api_key cfg org = None \<or> lookup_api_key cfg org = Some ''''"
  shows "fetch_vendors api org start_date end_date cfg =
           Some ([Log ERROR (''No API key found for organization: '' @ org)], Inr [])"
  using assms by (auto simp: fetch_vendors_def)

theorem fetch_vendors_without_api_key_witness:
  "lookup_api_key \<lparr>org_to_api_key = Some [(''kuwait'', '''')], centers_by_key = None\<rparr> ''Kuwait''
     = Some ''''
   \<and> fetch_vendors (\<lambda>r. Body []) ''Kuwait'' \<lparr>year = 2025, month = 9, day = 1\<rparr>
       \<lparr>year = 2025, month = 9, day = 30\<rparr>
       \<lparr>org_to_api_key = Some [(''kuwait'', '''')], centers_by_key = None\<rparr>
     = Some ([Log ERROR ''No API key found for organization: Kuwait''], Inr [])"
proof -
  have h: "lookup_api_key \<lparr>org_to_api_key = Some [(''kuwait'', '''')], centers_by_key = None\<rparr>
             ''Kuwait'' = Some ''''"
    by code_simp
  from fetch_vendors_without_api_key [OF disjI2, OF h] h show ?thesis
    by simp
qed

subsection \<open>Vendor Fetcher: center names\<close>

lemma map_of_dict_set:
  "map_of (dict_set d k v) k' = (if k' = k then Some v else map_of d k')"
proof (cases "dict_has d k")
  case True
  have "map_of (map (\<lambda>(a, b). if a = k then (a, v) else (a, b)) d) k'
          = (if k' = k then (if map_of d k \<noteq> None then Some v else None) else map_of d k')"
    by (induction d) auto
  with True show ?thesis
    by (simp add: dict_set_def dict_has_def map_of_eq_None_iff)
next
  case False
  then have "map_of d k = None"
    by (simp add: dict_has_def map_of_eq_None_iff)
  with False show ?thesis
    by (auto simp: dict_set_def map_add_def split: option.splits)
qed

lemma map_of_dict_pop:
  "map_of (dict_pop d k) k' = (if k' = k then None else map_of d k')"
  by (induction d) (auto simp: dict_pop_def)

lemma dict_has_map_of: "dict_has d k \<longleftrightarrow> map_of d k \<noteq> None"
  by (simp add: dict_has_def map_of_eq_None_iff)

lemma dict_get_present: "map_of d k = Some v \<Longrightarrow> dict_get d k dflt = v"
  by (simp add: dict_get_def)

lemma centers_get_hashable:
  "hashable cid \<Longrightarrow> centers_get centers cid = Inr (center_name_of centers cid)"
  by (cases cid) (simp_all add: centers_get_def center_name_of_def)

lemma map_center_absent:
  "map_of v ''center_id'' = None \<Longrightarrow> map_center centers v = Inr v"
  by (simp add: map_center_def dict_has_map_of)

lemma map_center_present:
  assumes "map_of v ''center_id'' = Some cid" and "hashable cid"
  shows "map_center centers v =
           Inr (dict_pop (dict_set v ''center_name'' (center_name_of centers cid)) ''center_id'')"
  using assms
  by (simp add: map_center_def dict_has_map_of dict_get_present centers_get_hashable)

lemma map_centers_total:
  assumes "\<forall>v \<in> set vendors. \<forall>cid. map_of v ''center_id'' = Some cid \<longrightarrow> hashable cid"
  shows "\<exists>vendors'. map_centers centers vendors = Inr vendors'
           \<and> list_all2 (\<lambda>v v'. map_center centers v = Inr v') vendors vendors'"
  using assms
proof (induction vendors)
  case Nil
  then show ?case by simp
next
  case (Cons v vs)
  then obtain vs' where vs': "map_centers centers vs = Inr vs'"
      "list_all2 (\<lambda>v v'. map_center centers v = Inr v') vs vs'"
    by auto
  obtain v' where v': "map_center centers v = Inr v'"
  proof (cases "map_of v ''center_id''")
    case None
    then show ?thesis using that by (simp add: map_center_absent)
  next
    case (Some cid)
    with Cons.prems have "hashable cid" by simp
    with Some show ?thesis using that by (simp add: map_center_present)
  qed
  from vs' v' show ?case by simp
qed

text \<open>
  Claim C3. The center mapping that the fetcher applies to the records of a page, with
  the center table of the API key (an empty table when the key has none): provided
  every \<^verbatim>\<open>center_id\<close> is a hashable value (any JSON scalar, in particular a string), the
  mapping succeeds and keeps the order; a record with a \<^verbatim>\<open>center_id\<close> gets
  \<^verbatim>\<open>center_name\<close> set to the table entry of that id, or to the id itself when the
  table has no entry, loses \<^verbatim>\<open>center_id\<close> and keeps every other field; a record without
  \<^verbatim>\<open>center_id\<close> is unchanged.
\<close>

theorem map_page_resolves_center:
  assumes "centers_by_key cfg = Some cbk"
    and "\<forall>v \<in> set vendors. \<forall>cid. map_of v ''center_id'' = Some cid \<longrightarrow> hashable cid"
  shows "\<exists>vendors'. map_page cfg api_key vendors = Inr vendors'
           \<and> length vendors' = length vendors
           \<and> (\<forall>i < length vendors.
                 case map_of (vendors ! i) ''center_id'' of
                   None \<Rightarrow> vendors' ! i = vendors ! i
                 | Some cid \<Rightarrow>
                     map_of (vendors' ! i) ''center_name''
                       = Some (center_name_of (dict_get cbk api_key []) cid)
                     \<and> map_of (vendors' ! i) ''center_id'' = None
                     \<and> (\<forall>k. k \<noteq> ''center_name'' \<and> k \<noteq> ''center_id''
                            \<longrightarrow> map_of (vendors' ! i) k = map_of (vendors ! i) k))"
proof -
  let ?centers = "dict_get cbk api_key []"
  from map_centers_total [OF assms(2), of ?centers]
  obtain vendors' where vs': "map_centers ?centers vendors = Inr vendors'"
      "list_all2 (\<lambda>v v'. map_center ?centers v = Inr v') vendors vendors'"
    by auto
  have page: "map_page cfg api_key vendors = Inr vendors'"
    using assms(1) vs'(1) by (simp add: map_page_def centers_of_def)
  have len: "length vendors' = length vendors"
    using vs'(2) by (simp add: list_all2_lengthD)
  have each: "case map_of (vendors ! i) ''center_id'' of
                   None \<Rightarrow> vendors' ! i = vendors ! i
                 | Some cid \<Rightarrow>
                     map_of (vendors' ! i) ''center_name''
                       = Some (center_name_of ?centers cid)
                     \<and> map_of (vendors' ! i) ''center_id'' = None
                     \<and> (\<forall>k. k \<noteq> ''center_name'' \<and> k \<noteq> ''center_id''
                            \<longrightarrow> map_of (vendors' ! i) k = map_of (vendors ! i) k)"
    if i: "i < length vendors" for i
  proof -
    from vs'(2) i have m: "map_center ?centers (vendors ! i) = Inr (vendors' ! i)"
      by (rule list_all2_nthD)
    show ?thesis
    proof (cases "map_of (vendors ! i) ''center_id''")
      case None
      with m show ?thesis by (simp add: map_center_absent)
    next
      case (Some cid)
      with assms(2) i have "hashable cid" by (meson nth_mem)
      with Some m have "vendors' ! i =
          dict_pop (dict_set (vendors ! i) ''center_name'' (center_name_of ?centers cid))
            ''center_id''"
        by (simp add: map_center_present)
      with Some show ?thesis
        by (simp add: map_of_dict_pop map_of_dict_set)
    qed
  qed
  from page len each show ?thesis by blast
qed

theorem map_page_resolves_center_witness:
  "\<exists>vendors'.
     map_page \<lparr>org_to_api_key = Some [(''lebanon'', ''K1'')],
               centers_by_key = Some [(''K1'', [(''C1'', PStr ''Downtown'')])]\<rparr> ''K1''
       [[(''id'', PInt 1), (''center_id'', PStr ''C1'')], [(''center_id'', PStr ''C9'')]]
       = Inr vendors'
     \<and> map_of (vendors' ! 0) ''center_name'' = Some (PStr ''Downtown'')
     \<and> map_of (vendors' ! 0) ''center_id'' = None
     \<and> map_of (vendors' ! 0) ''id'' = Some (PInt 1)
     \<and> map_of (vendors' ! 1) ''center_name'' = Some (PStr ''C9'')
     \<and> map_of (vendors' ! 1) ''center_id'' = None"
proof -
  let ?cfg = "\<lparr>org_to_api_key = Some [(''lebanon'', ''K1'')],
               centers_by_key = Some [(''K1'', [(''C1'', PStr ''Downtown'')])]\<rparr>"
  let ?vs = "[[(''id'', PInt 1), (''center_id'', PStr ''C1'')], [(''center_id'', PStr ''C9'')]]"
  have c: "centers_by_key ?cfg = Some [(''K1'', [(''C1'', PStr ''Downtown'')])]"
    by simp
  have h: "\<forall>v \<in> set ?vs. \<forall>cid. map_of v ''center_id'' = Some cid \<longrightarrow> hashable cid"
    by auto
  from map_page_resolves_center [OF c h, of "''K1''"]
  obtain vendors' where v: "map_page ?cfg ''K1'' ?vs = Inr vendors'"
    and each: "\<forall>i < length ?vs.
                 case map_of (?vs ! i) ''center_id'' of
                   None \<Rightarrow> vendors' ! i = ?vs ! i
                 | Some cid \<Rightarrow>
                     map_of (vendors' ! i) ''center_name''
                       = Some (center_name_of (dict_get [(''K1'', [(''C1'', PStr ''Downtown'')])] ''K1'' []) cid)
                     \<and> map_of (vendors' ! i) ''center_id'' = None
                     \<and> (\<forall>k. k \<noteq> ''center_name'' \<and> k \<noteq> ''center_id''
                            \<longrightarrow> map_of (vendors' ! i) k = map_of (?vs ! i) k)"
    by blast
  from each have e0: "map_of (vendors' ! 0) ''center_name'' = Some (PStr ''Downtown'')
      \<and> map_of (vendors' ! 0) ''center_id'' = None
      \<and> map_of (vendors' ! 0) ''id'' = Some (PInt 1)"
    by (auto dest!: spec [of _ 0] simp: center_name_of_def dict_get_def)
  from each have e1: "map_of (vendors' ! 1) ''center_name'' = Some (PStr ''C9'')
      \<and> map_of (vendors' ! 1) ''center_id'' = None"
    by (auto dest!: spec [of _ 1] simp: center_name_of_def dict_get_def)
  from v e0 e1 show ?thesis by blast
qed

subsection \<open>Vendor Fetcher: pagination\<close>

lemma full_pageI:
  assumes "raw_page api key sd ed p = Some vs" and "vs \<noteq> []"
    and "centers_by_key cfg = Some cbk"
    and "\<forall>v \<in> set vs. \<forall>cid. map_of v ''center_id'' = Some cid \<longrightarrow> hashable cid"
  shows "full_page api cfg key sd ed p"
proof -
  from map_centers_total [OF assms(4), of "dict_get cbk key []"]
  obtain vs' where "map_centers (dict_get cbk key []) vs = Inr vs'"
    by blast
  with assms(1-3) show ?thesis
    by (simp add: full_page_def map_page_def centers_of_def)
qed

lemma upt_1_3: "[1..<3] = [1, 2::nat]"
  by code_simp

lemma upt_1_4: "[1..<Suc 3] = [1, 2, 3::nat]"
  by code_simp

lemma upt_1_3': "[1..<Suc 2] = [1, 2::nat]"
  by code_simp

lemma str_of_nat_2: "str_of_nat 2 = ''2''"
  by code_simp

lemma lower_Lebanon: "lower ''Lebanon'' = ''lebanon''"
  by code_simp

lemma fetch_loop_empty:
  assumes "raw_page api key sd ed p = Some []"
  shows "fetch_loop api cfg org key sd ed p acc tr =
           Some (tr @ [Request (make_request key sd ed p)], Inr [(''vendors'', acc)])"
  using assms
  by (subst fetch_loop.simps) (simp add: raw_page_def split: response.splits)

lemma fetch_loop_transport_error:
  assumes "api (make_request key sd ed p) = TransportError msg"
  shows "fetch_loop api cfg org key sd ed p acc tr =
           Some (tr @ [Request (make_request key sd ed p),
                       Log ERROR (''Error fetching page '' @ str_of_nat p @ '' for '' @ org
                                  @ '': '' @ msg)],
                 Inr [])"
  using assms by (subst fetch_loop.simps) simp

lemma fetch_loop_step:
  assumes "full_page api cfg key sd ed p"
  shows "fetch_loop api cfg org key sd ed p acc tr =
           fetch_loop api cfg org key sd ed (Suc p) (acc @ mapped_page api cfg key sd ed p)
             (tr @ [Request (make_request key sd ed p)])"
  using assms
  by (subst fetch_loop.simps)
    (simp add: full_page_def mapped_page_def raw_page_def split: response.splits sum.splits)

lemma fetch_loop_run:
  assumes "\<forall>p. p0 \<le> p \<and> p < p0 + k \<longrightarrow> full_page api cfg key sd ed p"
  shows "fetch_loop api cfg org key sd ed p0 acc tr =
           fetch_loop api cfg org key sd ed (p0 + k)
             (acc @ concat (map (mapped_page api cfg key sd ed) [p0..<p0 + k]))
             (tr @ map (\<lambda>p. Request (make_request key sd ed p)) [p0..<p0 + k])"
  using assms
proof (induction k arbitrary: p0 acc tr)
  case 0
  then show ?case by simp
next
  case (Suc k)
  have first: "full_page api cfg key sd ed p0"
    using Suc.prems by simp
  have rest: "\<forall>p. Suc p0 \<le> p \<and> p < Suc p0 + k \<longrightarrow> full_page api cfg key sd ed p"
    using Suc.prems by simp
  have up: "[p0..<p0 + Suc k] = p0 # [Suc p0..<Suc p0 + k]"
    by (simp add: upt_conv_Cons)
  show ?case
    unfolding fetch_loop_step [OF first] Suc.IH [OF rest] up
    by simp
qed

lemma map_centers_length:
  "map_centers centers vs = Inr vs' \<Longrightarrow> length vs' = length vs"
  by (induction vs arbitrary: vs') (auto split: sum.splits)

lemma mapped_page_length:
  assumes "full_page api cfg key sd ed p"
  shows "length (mapped_page api cfg key sd ed p) = page_length api key sd ed p"
  using assms
  by (auto simp: full_page_def mapped_page_def page_length_def map_page_def
      split: option.splits sum.splits dest: map_centers_length)

lemma run_length:
  assumes "\<forall>p \<in> set ps. full_page api cfg key sd ed p"
  shows "length (concat (map (mapped_page api cfg key sd ed) ps))
           = sum_list (map (page_length api key sd ed) ps)"
  using assms by (induction ps) (simp_all add: mapped_page_length)

text \<open>
  Claim C1. For an organization with a non-empty API key: when the pages 1 to \<open>n - 1\<close>
  have records and page \<open>n\<close> is the first whose vendor list (\<^verbatim>\<open>vendors\<close>, else
  \<^verbatim>\<open>data\<close>) is empty, the fetch returns, having sent exactly the requests for the pages
  1, 2, ..., \<open>n\<close> in this order, each with page size 100, and its result holds under
  \<^verbatim>\<open>vendors\<close> the mapped records of the pages 1 to \<open>n - 1\<close> in order, as many as
  these pages had.
\<close>

theorem fetch_vendors_pagination:
  assumes "lookup_api_key cfg org = Some key" and "key \<noteq> []"
    and "1 \<le> n"
    and "\<forall>p. 1 \<le> p \<and> p < n \<longrightarrow> full_page api cfg key sd ed p"
    and "raw_page api key sd ed n = Some []"
  shows "fetch_vendors api org sd ed cfg =
           Some (map (\<lambda>p. Request \<lparr>req_api_key = key, req_page = p, req_size = 100,
                                    req_start = sd, req_end = ed\<rparr>) [1..<Suc n],
                 Inr [(''vendors'', concat (map (mapped_page api cfg key sd ed) [1..<n]))])
         \<and> length (concat (map (mapped_page api cfg key sd ed) [1..<n]))
             = sum_list (map (page_length api key sd ed) [1..<n])"
proof -
  obtain k where n: "n = 1 + k"
    using assms(3) by (metis le_Suc_ex)
  have pages: "\<forall>p. 1 \<le> p \<and> p < 1 + k \<longrightarrow> full_page api cfg key sd ed p"
    using assms(4) n by simp
  have "fetch_vendors api org sd ed cfg = fetch_loop api cfg org key sd ed 1 [] []"
    using assms(1,2) by (simp add: fetch_vendors_def)
  also have "\<dots> = fetch_loop api cfg org key sd ed (1 + k)
                     ([] @ concat (map (mapped_page api cfg key sd ed) [1..<1 + k]))
                     ([] @ map (\<lambda>p. Request (make_request key sd ed p)) [1..<1 + k])"
    by (rule fetch_loop_run [OF pages])
  also have "\<dots> = Some (map (\<lambda>p. Request (make_request key sd ed p)) [1..<1 + k]
                          @ [Request (make_request key sd ed (1 + k))],
                        Inr [(''vendors'', concat (map (mapped_page api cfg key sd ed) [1..<1 + k]))])"
    using assms(5) n by (simp add: fetch_loop_empty)
  finally have run: "fetch_vendors api org sd ed cfg =
      Some (map (\<lambda>p. Request (make_request key sd ed p)) [1..<Suc n],
            Inr [(''vendors'', concat (map (mapped_page api cfg key sd ed) [1..<n]))])"
    using n by simp
  have len: "length (concat (map (mapped_page api cfg key sd ed) [1..<n]))
             = sum_list (map (page_length api key sd ed) [1..<n])"
    using assms(4) by (intro run_length) simp
  from run len show ?thesis
    by (simp add: make_request_def size_const_def)
qed

theorem fetch_vendors_pagination_witness:
  "\<exists>recs.
     fetch_vendors
       (\<lambda>r. if req_page r = 1 then Body [(''vendors'', replicate 100 [(''center_id'', PStr ''C1'')])]
             else if req_page r = 2 then Body [(''data'', replicate 100 [(''id'', PInt 7)])]
             else Body [(''vendors'', [])])
       ''Lebanon'' \<lparr>year = 2025, month = 9, day = 1\<rparr> \<lparr>year = 2025, month = 9, day = 30\<rparr>
       \<lparr>org_to_api_key = Some [(''lebanon'', ''K1'')],
        centers_by_key = Some [(''K1'', [(''C1'', PStr ''Downtown'')])]\<rparr>
     = Some ([Request \<lparr>req_api_key = ''K1'', req_page = 1, req_size = 100,
                       req_start = \<lparr>year = 2025, month = 9, day = 1\<rparr>,
                       req_end = \<lparr>year = 2025, month = 9, day = 30\<rparr>\<rparr>,
              Request \<lparr>req_api_key = ''K1'', req_page = 2, req_size = 100,
                       req_start = \<lparr>year = 2025, month = 9, day = 1\<rparr>,
                       req_end = \<lparr>year = 2025, month = 9, day = 30\<rparr>\<rparr>,
              Request \<lparr>req_api_key = ''K1'', req_page = 3, req_size = 100,
                       req_start = \<lparr>year = 2025, month = 9, day = 1\<rparr>,
                       req_end = \<lparr>year = 2025, month = 9, day = 30\<rparr>\<rparr>],
             Inr [(''vendors'', recs)])
     \<and> length recs = 200"
proof -
  let ?api = "\<lambda>r. if req_page r = 1 then Body [(''vendors'', replicate 100 [(''center_id'', PStr ''C1'')])]
             else if req_page r = 2 then Body [(''data'', replicate 100 [(''id'', PInt 7)])]
             else Body [(''vendors'', [])]"
  let ?cfg = "\<lparr>org_to_api_key = Some [(''lebanon'', ''K1'')],
        centers_by_key = Some [(''K1'', [(''C1'', PStr ''Downtown'')])]\<rparr>"
  let ?sd = "\<lparr>year = 2025, month = 9, day = 1\<rparr>"
  let ?ed = "\<lparr>year = 2025, month = 9, day = 30\<rparr>"
  have key: "lookup_api_key ?cfg ''Lebanon'' = Some ''K1''"
    by (simp add: lookup_api_key_def lower_Lebanon)
  have r1: "raw_page ?api ''K1'' ?sd ?ed 1 = Some (replicate 100 [(''center_id'', PStr ''C1'')])"
    by (simp add: raw_page_def make_request_def page_vendors_def dict_get_def)
  have r2: "raw_page ?api ''K1'' ?sd ?ed 2 = Some (replicate 100 [(''id'', PInt 7)])"
    by (simp add: raw_page_def make_request_def page_vendors_def dict_get_def)
  have r3: "raw_page ?api ''K1'' ?sd ?ed 3 = Some []"
    by (simp add: raw_page_def make_request_def page_vendors_def dict_get_def)
  have f1: "full_page ?api ?cfg ''K1'' ?sd ?ed 1"
    by (rule full_pageI [OF r1]) auto
  have f2: "full_page ?api ?cfg ''K1'' ?sd ?ed 2"
    by (rule full_pageI [OF r2]) auto
  have pages: "\<forall>p. 1 \<le> p \<and> p < 3 \<longrightarrow> full_page ?api ?cfg ''K1'' ?sd ?ed p"
  proof (intro allI impI)
    fix p :: nat assume "1 \<le> p \<and> p < 3"
    then have "p = 1 \<or> p = 2" by arith
    with f1 f2 show "full_page ?api ?cfg ''K1'' ?sd ?ed p" by auto
  qed
  have p1: "page_length ?api ''K1'' ?sd ?ed 1 = 100"
    unfolding page_length_def r1 by simp
  have p2: "page_length ?api ''K1'' ?sd ?ed 2 = 100"
    unfolding page_length_def r2 by simp
  have len: "sum_list (map (page_length ?api ''K1'' ?sd ?ed) [1..<3]) = 200"
    unfolding upt_1_3 by (simp add: p1 p2 del: One_nat_def)
  from fetch_vendors_pagination [OF key _ _ pages r3] len
  show ?thesis
    unfolding upt_1_4 by (simp del: One_nat_def)
qed

text \<open>
  Claim C6. For an organization with a non-empty API key: when the pages 1 to \<open>n - 1\<close>
  have records and the request for page \<open>n\<close> fails, the fetch returns the empty
  mapping, whatever was accumulated; page \<open>n\<close> is requested once and nothing is
  requested after it.
\<close>

theorem fetch_vendors_transport_error:
  assumes "lookup_api_key cfg org = Some key" and "key \<noteq> []"
    and "1 \<le> n"
    and "\<forall>p. 1 \<le> p \<and> p < n \<longrightarrow> full_page api cfg key sd ed p"
    and "api (make_request key sd ed n) = TransportError msg"
  shows "fetch_vendors api org sd ed cfg =
           Some (map (\<lambda>p. Request (make_request key sd ed p)) [1..<Suc n]
                 @ [Log ERROR (''Error fetching page '' @ str_of_nat n @ '' for '' @ org
                               @ '': '' @ msg)],
                 Inr [])"
proof -
  obtain k where n: "n = 1 + k"
    using assms(3) by (metis le_Suc_ex)
  have pages: "\<forall>p. 1 \<le> p \<and> p < 1 + k \<longrightarrow> full_page api cfg key sd ed p"
    using assms(4) n by simp
  have "fetch_vendors api org sd ed cfg = fetch_loop api cfg org key sd ed 1 [] []"
    using assms(1,2) by (simp add: fetch_vendors_def)
  also have "\<dots> = fetch_loop api cfg org key sd ed (1 + k)
                     ([] @ concat (map (mapped_page api cfg key sd ed) [1..<1 + k]))
                     ([] @ map (\<lambda>p. Request (make_request key sd ed p)) [1..<1 + k])"
    by (rule fetch_loop_run [OF pages])
  also have "\<dots> = Some (map (\<lambda>p. Request (make_request key sd ed p)) [1..<1 + k]
                          @ [Request (make_request key sd ed (1 + k)),
                             Log ERROR (''Error fetching page '' @ str_of_nat (1 + k) @ '' for ''
                                        @ org @ '': '' @ msg)],
                        Inr [])"
    using assms(5) n by (simp add: fetch_loop_transport_error)
  finally show ?thesis
    using n by simp
qed

theorem fetch_vendors_transport_error_witness:
  "fetch_vendors
     (\<lambda>r. if req_page r = 1 then Body [(''vendors'', [[(''id'', PInt 1)], [(''id'', PInt 2)]])]
           else TransportError ''timeout'')
     ''Lebanon'' \<lparr>year = 2025, month = 9, day = 1\<rparr> \<lparr>year = 2025, month = 9, day = 30\<rparr>
     \<lparr>org_to_api_key = Some [(''lebanon'', ''K1'')], centers_by_key = Some []\<rparr>
   = Some ([Request (make_request ''K1'' \<lparr>year = 2025, month = 9, day = 1\<rparr>
                       \<lparr>year = 2025, month = 9, day = 30\<rparr> 1),
            Request (make_request ''K1'' \<lparr>year = 2025, month = 9, day = 1\<rparr>
                       \<lparr>year = 2025, month = 9, day = 30\<rparr> 2),
            Log ERROR ''Error fetching page 2 for Lebanon: timeout''],
           Inr [])"
proof -
  let ?api = "\<lambda>r. if req_page r = 1 then Body [(''vendors'', [[(''id'', PInt 1)], [(''id'', PInt 2)]])]
           else TransportError ''timeout''"
  let ?cfg = "\<lparr>org_to_api_key = Some [(''lebanon'', ''K1'')], centers_by_key = Some []\<rparr>"
  let ?sd = "\<lparr>year = 2025, month = 9, day = 1\<rparr>"
  let ?ed = "\<lparr>year = 2025, month = 9, day = 30\<rparr>"
  have key: "lookup_api_key ?cfg ''Lebanon'' = Some ''K1''"
    by (simp add: lookup_api_key_def lower_Lebanon)
  have r1: "raw_page ?api ''K1'' ?sd ?ed 1 = Some [[(''id'', PInt 1)], [(''id'', PInt 2)]]"
    by (simp add: raw_page_def make_request_def page_vendors_def dict_get_def)
  have f1: "full_page ?api ?cfg ''K1'' ?sd ?ed 1"
    by (rule full_pageI [OF r1]) auto
  have pages: "\<forall>p. 1 \<le> p \<and> p < 2 \<longrightarrow> full_page ?api ?cfg ''K1'' ?sd ?ed p"
  proof (intro allI impI)
    fix p :: nat assume "1 \<le> p \<and> p < 2"
    then have "p = 1" by arith
    with f1 show "full_page ?api ?cfg ''K1'' ?sd ?ed p" by simp
  qed
  have e: "?api (make_request ''K1'' ?sd ?ed 2) = TransportError ''timeout''"
    by (simp add: make_request_def)
  from fetch_vendors_transport_error [OF key _ _ pages e]
  show ?thesis
    unfolding upt_1_3' by (simp add: str_of_nat_2 del: One_nat_def)
qed

subsection \<open>Report Builder\<close>

lemma map_centers_error_class:
  "map_centers centers vs = Inl e \<Longrightarrow> exc_class_of e = TypeError"
  by (induction vs)
    (auto simp: map_center_def centers_get_def split: sum.splits if_splits pyval.splits)

lemma map_page_error_class:
  "map_page cfg key vs = Inl e \<Longrightarrow> exc_class_of e = TypeError \<or> exc_class_of e = KeyError"
  by (auto simp: map_page_def centers_of_def split: option.splits sum.splits
      dest: map_centers_error_class)

lemma fetch_loop_result:
  assumes "fetch_loop api cfg org key sd ed page acc tr = Some y"
  shows "case snd y of
           Inl e \<Rightarrow> exc_class_of e = TypeError \<or> exc_class_of e = KeyError
         | Inr r \<Rightarrow> r = [] \<or> (\<exists>vs. r = [(''vendors'', vs)])"
  using assms
proof (rule fetch_loop.raw_induct
    [where P = "\<lambda>api cfg org key sd ed page acc tr y.
                  case snd y of
                    Inl e \<Rightarrow> exc_class_of e = TypeError \<or> exc_class_of e = KeyError
                  | Inr r \<Rightarrow> r = [] \<or> (\<exists>vs. r = [(''vendors'', vs)])", rotated], goal_cases)
  case (1 fetch_loop api cfg org api_key start_date end_date page all_vendors tr y)
  show ?case
  proof (cases "api (make_request api_key start_date end_date page)")
    case (TransportError msg)
    with 1(2) show ?thesis by (auto simp: Let_def)
  next
    case (Body data)
    show ?thesis
    proof (cases "page_vendors data = []")
      case True
      with Body 1(2) show ?thesis by (auto simp: Let_def)
    next
      case False
      show ?thesis
      proof (cases "map_page cfg api_key (page_vendors data)")
        case (Inl e)
        with Body False 1(2) map_page_error_class [OF Inl] show ?thesis
          by (auto simp: Let_def)
      next
        case (Inr vendors)
        with Body False 1(2) have "fetch_loop api cfg org api_key start_date end_date (page + 1)
            (all_vendors @ vendors) (tr @ [Request (make_request api_key start_date end_date page)])
            = Some y"
          by (simp add: Let_def)
        then show ?thesis by (rule 1(1))
      qed
    qed
  qed
qed

lemma fetch_vendors_result:
  assumes "fetch_vendors api org sd ed cfg = Some (t, r)"
  shows "case r of
           Inl e \<Rightarrow> exc_class_of e = TypeError \<or> exc_class_of e = KeyError
         | Inr d \<Rightarrow> d = [] \<or> (\<exists>vs. d = [(''vendors'', vs)])"
proof (cases "lookup_api_key cfg org")
  case None
  with assms show ?thesis by (auto simp: fetch_vendors_def)
next
  case (Some key)
  show ?thesis
  proof (cases "key = []")
    case True
    with Some assms show ?thesis by (auto simp: fetch_vendors_def)
  next
    case False
    with Some assms have "fetch_loop api cfg org key sd ed 1 [] [] = Some (t, r)"
      by (simp add: fetch_vendors_def)
    from fetch_loop_result [OF this] show ?thesis by simp
  qed
qed

lemma set_dict_set: "set (dict_set d k v) \<subseteq> insert (k, v) (set d)"
  by (auto simp: dict_set_def split: if_splits)

lemma keys_dict_set: "fst ` set (dict_set d k v) = insert k (fst ` set d)"
proof -
  have "dom (map_of (dict_set d k v)) = insert k (dom (map_of d))"
    by (auto simp: map_of_dict_set dom_def)
  then show ?thesis by (simp add: dom_map_of_conv_image_fst)
qed

lemma fetch_all_keys:
  "fetch_all api cfg sd ed orgs raw tr = Some (tr', Inr raw')
     \<Longrightarrow> fst ` set raw' = fst ` set raw \<union> set orgs"
proof (induction orgs arbitrary: raw tr)
  case Nil
  then show ?case by simp
next
  case (Cons org orgs)
  from Cons.prems obtain t d where f: "fetch_vendors api org sd ed cfg = Some (t, Inr d)"
    and rest: "fetch_all api cfg sd ed orgs (dict_set raw org d) (tr @ t) = Some (tr', Inr raw')"
    by (auto split: option.splits sum.splits)
  from Cons.IH [OF rest] show ?case
    by (simp add: keys_dict_set)
qed

lemma fetch_all_entries:
  "fetch_all api cfg sd ed orgs raw tr = Some (tr', Inr raw') \<Longrightarrow> (org, d) \<in> set raw'
     \<Longrightarrow> (org, d) \<in> set raw
         \<or> (org \<in> set orgs \<and> (\<exists>t. fetch_vendors api org sd ed cfg = Some (t, Inr d)))"
proof (induction orgs arbitrary: raw tr)
  case Nil
  then show ?case by simp
next
  case (Cons o1 orgs)
  from Cons.prems(1) obtain t d1 where f: "fetch_vendors api o1 sd ed cfg = Some (t, Inr d1)"
    and rest: "fetch_all api cfg sd ed orgs (dict_set raw o1 d1) (tr @ t) = Some (tr', Inr raw')"
    by (auto split: option.splits sum.splits)
  from Cons.IH [OF rest Cons.prems(2)]
  consider "(org, d) \<in> set (dict_set raw o1 d1)"
    | "org \<in> set orgs \<and> (\<exists>t. fetch_vendors api org sd ed cfg = Some (t, Inr d))"
    by blast
  then show ?case
  proof cases
    case 1
    with set_dict_set [of raw o1 d1] have "(org, d) = (o1, d1) \<or> (org, d) \<in> set raw"
      by auto
    with f show ?thesis by auto
  next
    case 2
    then show ?thesis by auto
  qed
qed

lemma fetch_all_total:
  "\<forall>org \<in> set orgs. \<exists>t r. fetch_vendors api org sd ed cfg = Some (t, r)
     \<Longrightarrow> \<exists>tr' r'. fetch_all api cfg sd ed orgs raw tr = Some (tr', r')"
proof (induction orgs arbitrary: raw tr)
  case Nil
  then show ?case by simp
next
  case (Cons org orgs)
  then obtain t r where f: "fetch_vendors api org sd ed cfg = Some (t, r)"
    by auto
  show ?case
  proof (cases r)
    case (Inl e)
    with f show ?thesis by simp
  next
    case (Inr d)
    from Cons.IH [of "dict_set raw org d" "tr @ t"] Cons.prems f Inr show ?thesis
      by simp
  qed
qed

lemma fetch_all_Inl:
  "fetch_all api cfg sd ed orgs raw tr = Some (tr', Inl e)
     \<Longrightarrow> \<exists>org \<in> set orgs. \<exists>t. fetch_vendors api org sd ed cfg = Some (t, Inl e)"
proof (induction orgs arbitrary: raw tr)
  case Nil
  then show ?case by simp
next
  case (Cons org orgs)
  then show ?case
    by (fastforce split: option.splits sum.splits)
qed

lemma first_invalid_None:
  "first_invalid raw = None \<longleftrightarrow> (\<forall>(org, d) \<in> set raw. \<not> no_vendors_data d)"
proof -
  have "first_invalid raw = None \<longleftrightarrow> filter (\<lambda>(org, data). no_vendors_data data) raw = []"
    by (simp add: first_invalid_def split: list.splits prod.splits)
  then show ?thesis
    by (auto simp: filter_empty_conv)
qed

lemma first_invalid_Some:
  assumes "first_invalid raw = Some org"
  shows "\<exists>d. (org, d) \<in> set raw \<and> no_vendors_data d"
proof -
  from assms obtain d rest where
    "filter (\<lambda>(org, data). no_vendors_data data) raw = (org, d) # rest"
    by (auto simp: first_invalid_def split: list.splits prod.splits)
  then have "(org, d) \<in> set (filter (\<lambda>(org, data). no_vendors_data data) raw)"
    by simp
  then show ?thesis by auto
qed

lemma map_of_extract_data:
  "map_of (extract_data raw orgs acc) k =
     (if k \<in> set orgs \<and> dict_has (dict_get raw k []) ''vendors''
      then Some (dict_get (dict_get raw k []) ''vendors'' [])
      else map_of acc k)"
  by (induction orgs arbitrary: acc) (auto simp: map_of_dict_set)

lemma map_of_build_tables:
  "map_of (snd (build_tables ex)) k = map_option table_of (map_of ex k)"
  by (induction ex) (auto simp: build_tables_def Let_def table_of_def)

lemma keys_build_tables: "map fst (snd (build_tables ex)) = map fst ex"
  by (induction ex) (auto simp: build_tables_def Let_def)

lemma report_unfold:
  assumes "valid_orgs_of cfg (as_list organizations) \<noteq> []"
  shows "get_vendors_report (Parsed cfg) api organizations sd ed =
     (case fetch_all api cfg sd ed (valid_orgs_of cfg (as_list organizations)) [] [] of
        None \<Rightarrow> None
      | Some (tr, Inl e) \<Rightarrow> Some (tr, Inl e)
      | Some (tr, Inr raw_data) \<Rightarrow>
          (case first_invalid raw_data of
             Some org \<Rightarrow>
               Some (tr @ [Log ERROR (''No vendors data found for '' @ org @ ''.'')],
                     Inl (Raised ValueError (''No vendors data found for '' @ org @ ''.'')))
           | None \<Rightarrow>
               Some (tr @ fst (build_tables
                        (extract_data raw_data (valid_orgs_of cfg (as_list organizations)) [])),
                     Inr (snd (build_tables
                        (extract_data raw_data (valid_orgs_of cfg (as_list organizations)) []))))))"
  using assms
  by (simp add: get_vendors_report_def load_zenoti_config_def Let_def
      split: option.splits sum.splits prod.splits)

lemma report_no_valid:
  assumes "valid_orgs_of cfg (as_list organizations) = []"
  shows "get_vendors_report (Parsed cfg) api organizations sd ed =
           Some ([Log ERROR ''No valid organizations found in config.''],
                 Inl (Raised ValueError ''No valid organizations found in config.''))"
  using assms by (simp add: get_vendors_report_def load_zenoti_config_def Let_def)

lemma valid_orgs_of_filter:
  "valid_orgs_of cfg orgs = filter (\<lambda>org. lookup_api_key cfg org \<noteq> None) orgs"
  by (simp add: valid_orgs_of_def lookup_api_key_def dict_has_map_of)

lemma no_valid_message:
  "''No vendors data found for '' @ org @ ''.'' \<noteq> ''No valid organizations found in config.''"
  by simp

lemma table_of_Nil: "table_of [] = \<lparr>columns = [''center_name''], rows = []\<rparr>"
  by (simp add: table_of_def DataFrame_def normalize_work_phone_def clean_format_def)

lemma build_tables_Nil_entry:
  "build_tables [(org, [])] = ([], [(org, \<lparr>columns = [''center_name''], rows = []\<rparr>)])"
  by (simp add: build_tables_def DataFrame_def normalize_work_phone_def clean_format_def)

lemma lower_Kuwait: "lower ''Kuwait'' = ''kuwait''"
  by code_simp

lemma lower_Oman: "lower ''Oman'' = ''oman''"
  by code_simp

text \<open>
  Claim C4, as stated, with "a \<^verbatim>\<open>vendors\<close> key with data" read as it is written: the
  organization \<^verbatim>\<open>Kuwait\<close> has an API key and no vendor in the period, so its fetch
  result is \<^verbatim>\<open>{'vendors': []}\<close>, a \<^verbatim>\<open>vendors\<close> key without data. The report is
  not aborted: it is returned for both organizations, with an empty table for this one.
\<close>

theorem report_accepts_zero_records_counterexample:
  "fetch_vendors
     (\<lambda>r. if req_api_key r = ''K1'' \<and> req_page r = 1
           then Body [(''vendors'', [[(''id'', PInt 1)]])] else Body [])
     ''Kuwait'' \<lparr>year = 2025, month = 9, day = 1\<rparr> \<lparr>year = 2025, month = 9, day = 30\<rparr>
     \<lparr>org_to_api_key = Some [(''lebanon'', ''K1''), (''kuwait'', ''K2'')],
      centers_by_key = Some []\<rparr>
     = Some ([Request (make_request ''K2'' \<lparr>year = 2025, month = 9, day = 1\<rparr>
                         \<lparr>year = 2025, month = 9, day = 30\<rparr> 1)],
             Inr [(''vendors'', [])])
   \<and> get_vendors_report
       (Parsed \<lparr>org_to_api_key = Some [(''lebanon'', ''K1''), (''kuwait'', ''K2'')],
                centers_by_key = Some []\<rparr>)
       (\<lambda>r. if req_api_key r = ''K1'' \<and> req_page r = 1
             then Body [(''vendors'', [[(''id'', PInt 1)]])] else Body [])
       (OrgList [''Lebanon'', ''Kuwait''])
       \<lparr>year = 2025, month = 9, day = 1\<rparr> \<lparr>year = 2025, month = 9, day = 30\<rparr>
     = Some ([Request (make_request ''K1'' \<lparr>year = 2025, month = 9, day = 1\<rparr>
                         \<lparr>year = 2025, month = 9, day = 30\<rparr> 1),
              Request (make_request ''K1'' \<lparr>year = 2025, month = 9, day = 1\<rparr>
                         \<lparr>year = 2025, month = 9, day = 30\<rparr> 2),
              Request (make_request ''K2'' \<lparr>year = 2025, month = 9, day = 1\<rparr>
                         \<lparr>year = 2025, month = 9, day = 30\<rparr> 1)],
             Inr [(''Lebanon'', \<lparr>columns = [''id'', ''center_name''],
                                  rows = [[PInt 1, PStr '''']]\<rparr>),
                  (''Kuwait'', \<lparr>columns = [''center_name''], rows = []\<rparr>)])"
  by code_simp

text \<open>
  Claim C4, amended. What the validation looks at is the key, not the records. Suppose
  every fetch for a valid organization returns, and the fetch of one of them returns a
  result that is falsy or has no key \<^verbatim>\<open>vendors\<close> (the only such result of
  \<open>fetch_vendors\<close> is the empty mapping, as for an empty API key or a failed request).
  Then \<open>get_vendors_report\<close> ends with an error and there is no report for any
  organization. When no fetch raised, the error is the \<^verbatim>\<open>ValueError\<close> "No vendors data
  found" for a valid organization.
\<close>

theorem report_aborts_on_missing_data:
  assumes fin: "\<forall>org \<in> set (valid_orgs_of cfg (as_list organizations)).
                   \<exists>t r. fetch_vendors api org sd ed cfg = Some (t, r)"
    and bad: "bad \<in> set (valid_orgs_of cfg (as_list organizations))"
    and fbad: "fetch_vendors api bad sd ed cfg = Some (t, Inr d)"
    and nodata: "no_vendors_data d"
  shows "\<exists>tr e. get_vendors_report (Parsed cfg) api organizations sd ed = Some (tr, Inl e)
           \<and> ((\<forall>org \<in> set (valid_orgs_of cfg (as_list organizations)).
                  \<exists>t d. fetch_vendors api org sd ed cfg = Some (t, Inr d))
                \<longrightarrow> (\<exists>org \<in> set (valid_orgs_of cfg (as_list organizations)).
                       e = Raised ValueError (''No vendors data found for '' @ org @ ''.'')))"
proof -
  let ?valid = "valid_orgs_of cfg (as_list organizations)"
  from bad have ne: "?valid \<noteq> []" by auto
  from fetch_all_total [OF fin, of "[]" "[]"]
  obtain tr' r' where fa: "fetch_all api cfg sd ed ?valid [] [] = Some (tr', r')"
    by blast
  show ?thesis
  proof (cases r')
    case (Inl e)
    with fa have rep: "get_vendors_report (Parsed cfg) api organizations sd ed = Some (tr', Inl e)"
      by (simp add: report_unfold [OF ne])
    from fetch_all_Inl fa Inl
    obtain org t' where "org \<in> set ?valid" "fetch_vendors api org sd ed cfg = Some (t', Inl e)"
      by blast
    then have "\<not> (\<forall>org \<in> set ?valid. \<exists>t d. fetch_vendors api org sd ed cfg = Some (t, Inr d))"
      by force
    with rep show ?thesis by blast
  next
    case (Inr raw)
    with fa have fa': "fetch_all api cfg sd ed ?valid [] [] = Some (tr', Inr raw)"
      by simp
    from fetch_all_keys [OF fa'] bad have "bad \<in> fst ` set raw"
      by simp
    then obtain d' where d': "(bad, d') \<in> set raw" by force
    from fetch_all_entries [OF fa' d'] fbad have "d' = d" by auto
    with d' nodata have "\<not> (\<forall>(org, d) \<in> set raw. \<not> no_vendors_data d)"
      by blast
    then obtain org where fi: "first_invalid raw = Some org"
      using first_invalid_None [of raw] by (cases "first_invalid raw") auto
    from first_invalid_Some [OF fi] obtain d2 where "(org, d2) \<in> set raw"
      by blast
    with fetch_all_entries [OF fa'] have org: "org \<in> set ?valid"
      by fastforce
    have "get_vendors_report (Parsed cfg) api organizations sd ed =
            Some (tr' @ [Log ERROR (''No vendors data found for '' @ org @ ''.'')],
                  Inl (Raised ValueError (''No vendors data found for '' @ org @ ''.'')))"
      using fa' fi by (simp add: report_unfold [OF ne])
    with org show ?thesis by blast
  qed
qed

theorem report_aborts_on_missing_data_witness:
  "\<exists>tr e.
     get_vendors_report
       (Parsed \<lparr>org_to_api_key = Some [(''lebanon'', ''K1''), (''kuwait'', '''')],
                centers_by_key = Some []\<rparr>)
       (\<lambda>r. if req_page r = 1 then Body [(''vendors'', [[(''id'', PInt 1)]])] else Body [])
       (OrgList [''Lebanon'', ''Kuwait''])
       \<lparr>year = 2025, month = 9, day = 1\<rparr> \<lparr>year = 2025, month = 9, day = 30\<rparr>
     = Some (tr, Inl e)"
proof -
  let ?cfg = "\<lparr>org_to_api_key = Some [(''lebanon'', ''K1''), (''kuwait'', '''')],
                centers_by_key = Some []\<rparr>"
  let ?api = "\<lambda>r. if req_page r = 1 then Body [(''vendors'', [[(''id'', PInt 1)]])] else Body []"
  let ?sd = "\<lparr>year = 2025, month = 9, day = 1\<rparr>"
  let ?ed = "\<lparr>year = 2025, month = 9, day = 30\<rparr>"
  have valid: "valid_orgs_of ?cfg (as_list (OrgList [''Lebanon'', ''Kuwait'']))
                 = [''Lebanon'', ''Kuwait'']"
    by (simp add: valid_orgs_of_def as_list_def dict_has_def lower_Lebanon lower_Kuwait)
  have fL: "fetch_vendors ?api ''Lebanon'' ?sd ?ed ?cfg
              = Some ([Request (make_request ''K1'' ?sd ?ed 1),
                       Request (make_request ''K1'' ?sd ?ed 2)],
                      Inr [(''vendors'', [[(''id'', PInt 1)]])])"
    by code_simp
  have fK: "fetch_vendors ?api ''Kuwait'' ?sd ?ed ?cfg
              = Some ([Log ERROR ''No API key found for organization: Kuwait''], Inr [])"
    by code_simp
  have fin: "\<forall>org \<in> set (valid_orgs_of ?cfg (as_list (OrgList [''Lebanon'', ''Kuwait'']))).
               \<exists>t r. fetch_vendors ?api org ?sd ?ed ?cfg = Some (t, r)"
    unfolding valid using fL fK by auto
  have bad: "''Kuwait'' \<in> set (valid_orgs_of ?cfg (as_list (OrgList [''Lebanon'', ''Kuwait''])))"
    unfolding valid by simp
  have nodata: "no_vendors_data []"
    by (simp add: no_vendors_data_def)
  from report_aborts_on_missing_data [OF fin bad fK nodata] show ?thesis
    by blast
qed

text \<open>
  Claim C5. The organizations kept are exactly those of the input, in order, whose
  lowercased key is a key of \<^verbatim>\<open>org_to_api_key\<close>; the report ends with the error
  "No valid organizations found in config." if and only if none is kept; and a report
  that is returned has exactly the kept organizations as its keys.
\<close>

theorem valid_orgs_and_empty_error:
  "valid_orgs_of cfg (as_list organizations)
     = filter (\<lambda>org. lookup_api_key cfg org \<noteq> None) (as_list organizations)
   \<and> ((\<exists>tr. get_vendors_report (Parsed cfg) api organizations sd ed
              = Some (tr, Inl (Raised ValueError ''No valid organizations found in config.'')))
        \<longleftrightarrow> valid_orgs_of cfg (as_list organizations) = [])
   \<and> (\<forall>tr report. get_vendors_report (Parsed cfg) api organizations sd ed = Some (tr, Inr report)
          \<longrightarrow> set (map fst report) = set (valid_orgs_of cfg (as_list organizations)))"
proof (intro conjI allI impI)
  let ?valid = "valid_orgs_of cfg (as_list organizations)"
  let ?err = "Raised ValueError ''No valid organizations found in config.''"
  show "?valid = filter (\<lambda>org. lookup_api_key cfg org \<noteq> None) (as_list organizations)"
    by (rule valid_orgs_of_filter)
  show "(\<exists>tr. get_vendors_report (Parsed cfg) api organizations sd ed = Some (tr, Inl ?err))
          \<longleftrightarrow> ?valid = []"
  proof
    assume "?valid = []"
    then show "\<exists>tr. get_vendors_report (Parsed cfg) api organizations sd ed = Some (tr, Inl ?err)"
      by (simp add: report_no_valid)
  next
    assume "\<exists>tr. get_vendors_report (Parsed cfg) api organizations sd ed = Some (tr, Inl ?err)"
    then obtain tr where rep: "get_vendors_report (Parsed cfg) api organizations sd ed
        = Some (tr, Inl ?err)"
      by blast
    show "?valid = []"
    proof (rule ccontr)
      assume ne: "?valid \<noteq> []"
      from rep [unfolded report_unfold [OF ne]]
      consider tr' where "fetch_all api cfg sd ed ?valid [] [] = Some (tr', Inl ?err)"
        | tr' raw org where "fetch_all api cfg sd ed ?valid [] [] = Some (tr', Inr raw)"
            "Raised ValueError (''No vendors data found for '' @ org @ ''.'') = ?err"
        by (auto split: option.splits sum.splits prod.splits)
      then show False
      proof cases
        case 1
        from fetch_all_Inl [OF 1] obtain org t
          where "fetch_vendors api org sd ed cfg = Some (t, Inl ?err)"
          by blast
        from fetch_vendors_result [OF this] show False by simp
      next
        case 2
        then show False by simp
      qed
    qed
  qed
next
  fix tr report
  let ?valid = "valid_orgs_of cfg (as_list organizations)"
  assume rep: "get_vendors_report (Parsed cfg) api organizations sd ed = Some (tr, Inr report)"
  have ne: "?valid \<noteq> []"
  proof
    assume "?valid = []"
    from rep [unfolded report_no_valid [OF this]] show False by simp
  qed
  from rep [unfolded report_unfold [OF ne]]
  obtain tr' raw where fa: "fetch_all api cfg sd ed ?valid [] [] = Some (tr', Inr raw)"
    and fi: "first_invalid raw = None"
    and report: "report = snd (build_tables (extract_data raw ?valid []))"
    by (auto split: option.splits sum.splits prod.splits)
  have has: "dict_has (dict_get raw org []) ''vendors''" if "org \<in> set ?valid" for org
  proof -
    from fetch_all_keys [OF fa] that have "org \<in> fst ` set raw" by simp
    then obtain d where d: "map_of raw org = Some d"
      by (metis dom_map_of_conv_image_fst domD)
    then have "(org, d) \<in> set raw" by (rule map_of_SomeD)
    with fi have "\<not> no_vendors_data d"
      by (auto simp: first_invalid_None)
    with d show ?thesis
      by (simp add: no_vendors_data_def dict_get_def)
  qed
  have "dom (map_of (extract_data raw ?valid [])) = set ?valid"
    using has by (auto simp: map_of_extract_data dom_def)
  then have "set (map fst (extract_data raw ?valid [])) = set ?valid"
    by (simp add: dom_map_of_conv_image_fst)
  then show "set (map fst report) = set ?valid"
    by (simp add: report keys_build_tables)
qed

theorem valid_orgs_and_empty_error_witness:
  "valid_orgs_of \<lparr>org_to_api_key = Some [(''lebanon'', ''K1'')], centers_by_key = Some []\<rparr>
     (as_list (OrgList [''Lebanon'', ''Oman''])) = [''Lebanon'']
   \<and> (\<exists>tr. get_vendors_report
              (Parsed \<lparr>org_to_api_key = Some [(''lebanon'', ''K1'')], centers_by_key = Some []\<rparr>)
              (\<lambda>r. Body []) (OrgStr ''Oman'')
              \<lparr>year = 2025, month = 9, day = 1\<rparr> \<lparr>year = 2025, month = 9, day = 30\<rparr>
            = Some (tr, Inl (Raised ValueError ''No valid organizations found in config.'')))
   \<and> set (valid_orgs_of \<lparr>org_to_api_key = Some [(''lebanon'', ''K1'')], centers_by_key = Some []\<rparr>
            (as_list (OrgStr ''Lebanon''))) = {''Lebanon''}"
proof -
  let ?cfg = "\<lparr>org_to_api_key = Some [(''lebanon'', ''K1'')], centers_by_key = Some []\<rparr>"
  let ?api = "\<lambda>r :: request. Body []"
  let ?sd = "\<lparr>year = 2025, month = 9, day = 1\<rparr>"
  let ?ed = "\<lparr>year = 2025, month = 9, day = 30\<rparr>"
  have kL: "lookup_api_key ?cfg ''Lebanon'' = Some ''K1''"
    by (simp add: lookup_api_key_def lower_Lebanon)
  have kO: "lookup_api_key ?cfg ''Oman'' = None"
    by (simp add: lookup_api_key_def lower_Oman)
  have a: "valid_orgs_of ?cfg (as_list (OrgList [''Lebanon'', ''Oman''])) = [''Lebanon'']"
    using valid_orgs_and_empty_error [of ?cfg "OrgList [''Lebanon'', ''Oman'']" ?api ?sd ?ed]
    by (simp add: as_list_def kL kO)
  have "valid_orgs_of ?cfg (as_list (OrgStr ''Oman'')) = []"
    using valid_orgs_and_empty_error [of ?cfg "OrgStr ''Oman''" ?api ?sd ?ed]
    by (simp add: as_list_def kO)
  with valid_orgs_and_empty_error [of ?cfg "OrgStr ''Oman''" ?api ?sd ?ed]
  have b: "\<exists>tr. get_vendors_report (Parsed ?cfg) ?api (OrgStr ''Oman'') ?sd ?ed
            = Some (tr, Inl (Raised ValueError ''No valid organizations found in config.''))"
    by blast
  have rep: "get_vendors_report (Parsed ?cfg) ?api (OrgStr ''Lebanon'') ?sd ?ed
               = Some ([Request (make_request ''K1'' ?sd ?ed 1)],
                       Inr [(''Lebanon'', \<lparr>columns = [''center_name''], rows = []\<rparr>)])"
    by code_simp
  from valid_orgs_and_empty_error [of ?cfg "OrgStr ''Lebanon''" ?api ?sd ?ed] rep
  have c: "set (valid_orgs_of ?cfg (as_list (OrgStr ''Lebanon''))) = {''Lebanon''}"
    by auto
  from a b c show ?thesis by blast
qed

text \<open>
  Claim C10. When the first page for an organization with a non-empty API key is empty,
  \<open>fetch_vendors\<close> returns \<^verbatim>\<open>{'vendors': []}\<close> after one request; the validation does
  not count this as missing data; the report for this organization alone is returned,
  with a table that has no rows (and the one column \<^verbatim>\<open>center_name\<close>); and in every
  returned report with this organization its table is this empty table.
\<close>

theorem empty_first_page_accepted:
  assumes key: "lookup_api_key cfg org = Some key" and ne: "key \<noteq> []"
    and empty: "raw_page api key sd ed 1 = Some []"
  shows "fetch_vendors api org sd ed cfg
           = Some ([Request (make_request key sd ed 1)], Inr [(''vendors'', [])])
         \<and> \<not> no_vendors_data [(''vendors'', [])]
         \<and> get_vendors_report (Parsed cfg) api (OrgStr org) sd ed
             = Some ([Request (make_request key sd ed 1)],
                     Inr [(org, \<lparr>columns = [''center_name''], rows = []\<rparr>)])
         \<and> (\<forall>organizations tr report.
               org \<in> set (as_list organizations)
               \<longrightarrow> get_vendors_report (Parsed cfg) api organizations sd ed = Some (tr, Inr report)
               \<longrightarrow> map_of report org = Some \<lparr>columns = [''center_name''], rows = []\<rparr>)"
proof (intro conjI allI impI)
  show f: "fetch_vendors api org sd ed cfg
           = Some ([Request (make_request key sd ed 1)], Inr [(''vendors'', [])])"
    using key ne fetch_loop_empty [OF empty, of cfg org "[]" "[]"]
    by (simp add: fetch_vendors_def)
  show nv: "\<not> no_vendors_data [(''vendors'', [])]"
    by (simp add: no_vendors_data_def dict_has_def)
  have v1: "valid_orgs_of cfg (as_list (OrgStr org)) = [org]"
    using key by (simp add: valid_orgs_of_filter as_list_def)
  have ne1: "valid_orgs_of cfg (as_list (OrgStr org)) \<noteq> []"
    using v1 by simp
  have fa: "fetch_all api cfg sd ed [org] [] []
              = Some ([Request (make_request key sd ed 1)], Inr [(org, [(''vendors'', [])])])"
    using f by (simp add: dict_set_def dict_has_def)
  have fi: "first_invalid [(org, [(''vendors'', [])])] = None"
    using nv by (simp add: first_invalid_def)
  show "get_vendors_report (Parsed cfg) api (OrgStr org) sd ed
             = Some ([Request (make_request key sd ed 1)],
                     Inr [(org, \<lparr>columns = [''center_name''], rows = []\<rparr>)])"
    unfolding report_unfold [OF ne1] v1 fa
    by (simp add: fi dict_get_def dict_has_def dict_set_def build_tables_Nil_entry)
next
  fix organizations tr report
  let ?valid = "valid_orgs_of cfg (as_list organizations)"
  assume mem: "org \<in> set (as_list organizations)"
    and rep: "get_vendors_report (Parsed cfg) api organizations sd ed = Some (tr, Inr report)"
  have f: "fetch_vendors api org sd ed cfg
           = Some ([Request (make_request key sd ed 1)], Inr [(''vendors'', [])])"
    using key ne fetch_loop_empty [OF empty, of cfg org "[]" "[]"]
    by (simp add: fetch_vendors_def)
  from mem key have v: "org \<in> set ?valid"
    by (simp add: valid_orgs_of_filter)
  then have vne: "?valid \<noteq> []" by auto
  from rep [unfolded report_unfold [OF vne]]
  obtain tr' raw where fa: "fetch_all api cfg sd ed ?valid [] [] = Some (tr', Inr raw)"
    and report: "report = snd (build_tables (extract_data raw ?valid []))"
    by (auto split: option.splits sum.splits prod.splits)
  from fetch_all_keys [OF fa] v have "org \<in> fst ` set raw" by simp
  then obtain d where d: "map_of raw org = Some d"
    by (metis dom_map_of_conv_image_fst domD)
  then have "(org, d) \<in> set raw" by (rule map_of_SomeD)
  from fetch_all_entries [OF fa this] f have "d = [(''vendors'', [])]"
    by auto
  with d have g: "dict_get raw org [] = [(''vendors'', [])]"
    by (simp add: dict_get_def)
  have "map_of (extract_data raw ?valid []) org = Some []"
    unfolding map_of_extract_data g using v by (simp add: dict_has_def dict_get_def)
  then show "map_of report org = Some \<lparr>columns = [''center_name''], rows = []\<rparr>"
    by (simp add: report map_of_build_tables table_of_Nil)
qed

theorem empty_first_page_accepted_witness:
  "get_vendors_report
     (Parsed \<lparr>org_to_api_key = Some [(''lebanon'', ''K1'')], centers_by_key = Some []\<rparr>)
     (\<lambda>r. Body []) (OrgStr ''Lebanon'')
     \<lparr>year = 2025, month = 9, day = 1\<rparr> \<lparr>year = 2025, month = 9, day = 30\<rparr>
   = Some ([Request (make_request ''K1'' \<lparr>year = 2025, month = 9, day = 1\<rparr>
                       \<lparr>year = 2025, month = 9, day = 30\<rparr> 1)],
           Inr [(''Lebanon'', \<lparr>columns = [''center_name''], rows = []\<rparr>)])"
proof -
  let ?cfg = "\<lparr>org_to_api_key = Some [(''lebanon'', ''K1'')], centers_by_key = Some []\<rparr>"
  have key: "lookup_api_key ?cfg ''Lebanon'' = Some ''K1''"
    by (simp add: lookup_api_key_def lower_Lebanon)
  have ne: "''K1'' \<noteq> []" by simp
  have empty: "raw_page (\<lambda>r. Body []) ''K1'' \<lparr>year = 2025, month = 9, day = 1\<rparr>
                 \<lparr>year = 2025, month = 9, day = 30\<rparr> 1 = Some []"
    by (simp add: raw_page_def page_vendors_def dict_get_def)
  from empty_first_page_accepted [OF key ne empty] show ?thesis
    by blast
qed

subsection \<open>Exporter\<close>

text \<open>
  Claim C9. Once the output directory exists, whatever happens while the spreadsheet is
  written (opening the writer, writing a sheet, closing), \<open>export_orgs_to_excel\<close> returns
  normally with the same value \<^verbatim>\<open>None\<close>; a failure only leaves an error record in the
  log, so the caller cannot tell success from failure.
\<close>

theorem export_swallows_write_failures:
  assumes "makedirs env output_dir = None"
  shows "export_orgs_to_excel env data output_dir report_name date_str =
           ((case with_writer env
                    (path_join env output_dir (report_name @ ''_'' @ date_str @ ''.xlsx'')) data of
               None \<Rightarrow> []
             | Some e \<Rightarrow>
                 [Log ERROR (''Error saving to Excel file ''
                    @ path_join env output_dir (report_name @ ''_'' @ date_str @ ''.xlsx'')
                    @ '': '' @ exc_text e)]),
            Inr ())"
  using assms by (simp add: export_orgs_to_excel_def Let_def split: option.splits)

theorem export_swallows_write_failures_witness:
  "export_orgs_to_excel
     \<lparr>makedirs = (\<lambda>d. None), path_join = (\<lambda>a b. a @ ''/'' @ b), open_writer = (\<lambda>f. None),
      to_excel = (\<lambda>f org df. Some (Raised ValueError ''bad sheet'')),
      close_writer = (\<lambda>f. None)\<rparr>
     [(''lebanon'', \<lparr>columns = [''center_name''], rows = []\<rparr>)] ''out'' ''vendors'' ''2025-10-14''
   = ([Log ERROR ''Error saving to Excel file out/vendors_2025-10-14.xlsx: bad sheet''], Inr ())"
  using export_swallows_write_failures
    [of "\<lparr>makedirs = (\<lambda>d. None), path_join = (\<lambda>a b. a @ ''/'' @ b), open_writer = (\<lambda>f. None),
          to_excel = (\<lambda>f org df. Some (Raised ValueError ''bad sheet'')),
          close_writer = (\<lambda>f. None)\<rparr>"
        "''out''" "[(''lebanon'', \<lparr>columns = [''center_name''], rows = []\<rparr>)]"
        "''vendors''" "''2025-10-14''"]
  by (simp add: with_writer_def)

end
